theory Spec2Isabelle
  imports Main "HOL-Library.AList"
begin

section \<open>Exceptions and programs with effects\<close>

text \<open>
  The Python exceptions that the code of \<^verbatim>\<open>studip_sync.py\<close> raises, catches or lets
  through. \<open>DownloadError\<close> and \<open>ExtractionError\<close> are the two classes the module
  declares; \<open>BadZipFile\<close> is \<^verbatim>\<open>zipfile.BadZipFile\<close>; \<open>OSError\<close> stands for the
  subclasses of \<^verbatim>\<open>OSError\<close> that the file system calls raise (\<^verbatim>\<open>shutil.Error\<close>
  is one of them); \<open>NoSuchElementException\<close> and \<open>TimeoutException\<close> are
  Selenium's; \<open>SystemExit\<close> is what \<^verbatim>\<open>exit(1)\<close> raises. \<open>OtherException\<close> stands
  for an exception of any other class, named by its class: \<^verbatim>\<open>zipfile\<close> raises
  \<^verbatim>\<open>zlib.error\<close>, \<^verbatim>\<open>RuntimeError\<close> or \<^verbatim>\<open>NotImplementedError\<close> for members it
  cannot read.
\<close>

datatype oserror =
    FileNotFoundError
  | NotADirectoryError
  | IsADirectoryError
  | FileExistsError
  | DirectoryNotEmpty
  | ShutilError

datatype exn =
    DownloadError string
  | ExtractionError string
  | BadZipFile
  | OSError oserror
  | NoSuchElementException
  | TimeoutException
  | SystemExit nat
  | OtherException string

text \<open>
  A statement of the program is a function from the state before it to its result
  (\<open>Inl\<close> an exception, \<open>Inr\<close> a value) and the state after it. The state is
  returned with an exception too: what was written before a \<^verbatim>\<open>raise\<close> stays
  written.
\<close>

type_synonym ('s, 'a) prog = "'s \<Rightarrow> (exn + 'a) \<times> 's"

definition pret :: "'a \<Rightarrow> ('s, 'a) prog" where
  "pret a s = (Inr a, s)"

definition praise :: "exn \<Rightarrow> ('s, 'a) prog" where
  "praise e s = (Inl e, s)"

definition pbind :: "('s, 'a) prog \<Rightarrow> ('a \<Rightarrow> ('s, 'b) prog) \<Rightarrow> ('s, 'b) prog" where
  "pbind m f s = (case m s of (Inl e, s') \<Rightarrow> (Inl e, s') | (Inr a, s') \<Rightarrow> f a s')"

definition pthen :: "('s, 'a) prog \<Rightarrow> ('s, 'b) prog \<Rightarrow> ('s, 'b) prog" where
  "pthen m k = pbind m (\<lambda>_. k)"

text \<open>\<^verbatim>\<open>try: m except E: h\<close>: the handler decides which exceptions it takes.\<close>

definition pcatch :: "('s, 'a) prog \<Rightarrow> (exn \<Rightarrow> ('s, 'a) prog) \<Rightarrow> ('s, 'a) prog" where
  "pcatch m h s = (case m s of (Inl e, s') \<Rightarrow> h e s' | (Inr a, s') \<Rightarrow> (Inr a, s'))"

text \<open>
  \<^verbatim>\<open>with obj: body\<close> once \<open>obj\<close> is constructed: the exit method runs after the
  body however the body ends, and the body's result stands unless the exit method raises.
\<close>

definition pwith :: "('s, 'a) prog \<Rightarrow> ('s, unit) prog \<Rightarrow> ('s, 'a) prog" where
  "pwith body exit_method s =
     (case body s of (r, s') \<Rightarrow>
        (case exit_method s' of (Inl e, s'') \<Rightarrow> (Inl e, s'') | (Inr _, s'') \<Rightarrow> (r, s'')))"

section \<open>The file system\<close>

text \<open>
  A path is the list of its components. A directory is the list of its entries in the
  order \<^verbatim>\<open>os.listdir\<close> gives them. A file holds bytes that are a zip archive (the
  list of its members, in the order of the archive, under distinct names) or are not. A
  member is
  \<^item> \<open>MDir\<close>, a directory entry;
  \<^item> \<open>MFile bytes\<close>, a file with its bytes;
  \<^item> \<open>MDamaged\<close>, a file whose local header is damaged, which \<^verbatim>\<open>zipfile\<close> refuses
    with \<^verbatim>\<open>BadZipFile\<close> when it opens the member;
  \<^item> \<open>MBadCRC written\<close>, a file whose bytes fail the check of the CRC:
    \<^verbatim>\<open>BadZipFile\<close> is raised while the member is copied, after the bytes \<open>written\<close>
    have reached the target file (none of them for a member read in one piece);
  \<^item> \<open>MRefused cls\<close>, a file that \<^verbatim>\<open>zipfile\<close> refuses to open with an exception of
    the class \<open>cls\<close> (\<^verbatim>\<open>NotImplementedError\<close> for a compression method it does not
    know, \<^verbatim>\<open>RuntimeError\<close> for an encrypted member);
  \<^item> \<open>MCorrupt cls written\<close>, a file whose compressed bytes are corrupt: the exception
    of the class \<open>cls\<close> (\<^verbatim>\<open>zlib.error\<close>) is raised while the member is copied, after
    the bytes \<open>written\<close>.
\<close>

type_synonym name = string
type_synonym path = "name list"

datatype member_data =
    MDir
  | MFile string
  | MDamaged
  | MBadCRC string
  | MRefused string
  | MCorrupt string string

datatype content = Raw string | Zip "(path \<times> member_data) list"

datatype node = File content | Dir "(name \<times> node) list"

fun lookup :: "node \<Rightarrow> path \<Rightarrow> node option" where
  "lookup n [] = Some n"
| "lookup (File c) (x # p) = None"
| "lookup (Dir es) (x # p) = (case map_of es x of None \<Rightarrow> None | Some c \<Rightarrow> lookup c p)"

text \<open>
  The entry a path names, with the error of the kernel when there is none: a component
  that is missing is \<^verbatim>\<open>ENOENT\<close>, a file on the way is \<^verbatim>\<open>ENOTDIR\<close>.
\<close>

fun stat :: "node \<Rightarrow> path \<Rightarrow> oserror + node" where
  "stat n [] = Inr n"
| "stat (File c) (x # p) = Inl NotADirectoryError"
| "stat (Dir es) (x # p) = (case map_of es x of None \<Rightarrow> Inl FileNotFoundError | Some c \<Rightarrow> stat c p)"

definition exists :: "node \<Rightarrow> path \<Rightarrow> bool" where
  "exists fs p = (case lookup fs p of None \<Rightarrow> False | Some _ \<Rightarrow> True)"

definition isdir :: "node \<Rightarrow> path \<Rightarrow> bool" where
  "isdir fs p = (case lookup fs p of Some (Dir _) \<Rightarrow> True | _ \<Rightarrow> False)"

text \<open>
  One system call on the entry a path names: \<open>f\<close> sees the entry (\<open>None\<close> when the
  parent has no such entry) and answers with an error, with \<open>None\<close> to unlink it or
  with the entry to store. A missing parent is \<^verbatim>\<open>ENOENT\<close>, a file on the way is
  \<^verbatim>\<open>ENOTDIR\<close>. The call changes nothing when it fails.
\<close>

fun alter :: "(node option \<Rightarrow> oserror + node option) \<Rightarrow> path \<Rightarrow> node \<Rightarrow> oserror + node" where
  "alter f [] n = Inl FileExistsError"
| "alter f (x # p) (File c) = Inl NotADirectoryError"
| "alter f [x] (Dir es) =
     (case f (map_of es x) of
        Inl e \<Rightarrow> Inl e
      | Inr None \<Rightarrow> Inr (Dir (AList.delete x es))
      | Inr (Some n) \<Rightarrow> Inr (Dir (AList.update x n es)))"
| "alter f (x # y # p) (Dir es) =
     (case map_of es x of
        None \<Rightarrow> Inl FileNotFoundError
      | Some c \<Rightarrow>
          (case alter f (y # p) c of
             Inl e \<Rightarrow> Inl e
           | Inr c' \<Rightarrow> Inr (Dir (AList.update x c' es))))"

definition mkdir :: "path \<Rightarrow> node \<Rightarrow> oserror + node" where
  "mkdir = alter (\<lambda>entry. case entry of None \<Rightarrow> Inr (Some (Dir [])) | Some _ \<Rightarrow> Inl FileExistsError)"

definition rmdir :: "path \<Rightarrow> node \<Rightarrow> oserror + node" where
  "rmdir = alter (\<lambda>entry. case entry of
       None \<Rightarrow> Inl FileNotFoundError
     | Some (File _) \<Rightarrow> Inl NotADirectoryError
     | Some (Dir es) \<Rightarrow> if es = [] then Inr None else Inl DirectoryNotEmpty)"

text \<open>\<^verbatim>\<open>open(path, "wb")\<close> and the write of the whole content.\<close>

definition write_file :: "path \<Rightarrow> content \<Rightarrow> node \<Rightarrow> oserror + node" where
  "write_file p c = alter (\<lambda>entry. case entry of
       Some (Dir _) \<Rightarrow> Inl IsADirectoryError
     | _ \<Rightarrow> Inr (Some (File c))) p"

definition rmtree :: "path \<Rightarrow> node \<Rightarrow> oserror + node" where
  "rmtree = alter (\<lambda>entry. case entry of
       None \<Rightarrow> Inl FileNotFoundError
     | Some (File _) \<Rightarrow> Inl NotADirectoryError
     | Some (Dir _) \<Rightarrow> Inr None)"

text \<open>\<^verbatim>\<open>os.rename(src, dst)\<close> for a \<open>dst\<close> that does not exist.\<close>

definition rename :: "path \<Rightarrow> path \<Rightarrow> node \<Rightarrow> oserror + node" where
  "rename src dst fs =
     (case lookup fs src of
        None \<Rightarrow> Inl FileNotFoundError
      | Some n \<Rightarrow>
          (case alter (\<lambda>_. Inr None) src fs of
             Inl e \<Rightarrow> Inl e
           | Inr fs' \<Rightarrow> alter (\<lambda>_. Inr (Some n)) dst fs'))"

text \<open>
  \<^verbatim>\<open>os.makedirs(base/x1/.../xn, exist_ok)\<close>, where \<open>base\<close> is known to exist or is the
  root: the missing directories are made from the top; a file on the way is
  \<^verbatim>\<open>NotADirectoryError\<close>; the last component existing is \<^verbatim>\<open>FileExistsError\<close>
  unless it is a directory and \<open>exist_ok\<close> holds. The root itself exists.
\<close>

fun makedirs_from :: "bool \<Rightarrow> path \<Rightarrow> name list \<Rightarrow> node \<Rightarrow> oserror + node" where
  "makedirs_from exist_ok base [] fs = Inr fs"
| "makedirs_from exist_ok base (x # xs) fs =
     (case lookup fs (base @ [x]) of
        Some (File _) \<Rightarrow> Inl (if xs = [] then FileExistsError else NotADirectoryError)
      | Some (Dir _) \<Rightarrow>
          (if xs = [] \<and> \<not> exist_ok then Inl FileExistsError
           else makedirs_from exist_ok (base @ [x]) xs fs)
      | None \<Rightarrow>
          (case mkdir (base @ [x]) fs of
             Inl e \<Rightarrow> Inl e
           | Inr fs' \<Rightarrow> makedirs_from exist_ok (base @ [x]) xs fs'))"

definition makedirs :: "bool \<Rightarrow> path \<Rightarrow> node \<Rightarrow> oserror + node" where
  "makedirs exist_ok p fs =
     (if p = [] then (if exist_ok then Inr fs else Inl FileExistsError)
      else makedirs_from exist_ok [] p fs)"

text \<open>\<^verbatim>\<open>os.listdir\<close>: every entry, the hidden ones too.\<close>

definition listdir :: "path \<Rightarrow> node \<Rightarrow> oserror + name list" where
  "listdir p fs =
     (case stat fs p of
        Inl e \<Rightarrow> Inl e
      | Inr (File _) \<Rightarrow> Inl NotADirectoryError
      | Inr (Dir es) \<Rightarrow> Inr (map fst es))"

text \<open>
  \<^verbatim>\<open>glob.iglob(os.path.join(d, "*"))\<close>: the entries of \<open>d\<close> whose name does not start
  with a dot (the pattern \<^verbatim>\<open>*\<close> never matches a leading dot), as paths; nothing when
  \<open>d\<close> is not a directory, since \<^verbatim>\<open>glob\<close> swallows the error of the listing. The
  components of \<open>d\<close> are taken to hold none of the characters \<^verbatim>\<open>*\<close>, \<^verbatim>\<open>?\<close> and
  \<^verbatim>\<open>[\<close>, which \<^verbatim>\<open>glob\<close> reads as patterns in every component of the path.
\<close>

definition hidden :: "name \<Rightarrow> bool" where
  "hidden n = (case n of [] \<Rightarrow> False | c # _ \<Rightarrow> c = CHR ''.'')"

definition iglob_star :: "path \<Rightarrow> node \<Rightarrow> path list" where
  "iglob_star d fs =
     (case lookup fs d of
        Some (Dir es) \<Rightarrow> map (\<lambda>n. d @ [n]) (filter (\<lambda>n. \<not> hidden n) (map fst es))
      | _ \<Rightarrow> [])"

text \<open>
  \<^verbatim>\<open>shutil.move(src, dst)\<close> for a \<open>dst\<close> that is an existing directory: the target is
  \<open>dst/basename(src)\<close>, and \<^verbatim>\<open>shutil.Error\<close> is raised when the target exists.
\<close>

definition shutil_move :: "path \<Rightarrow> path \<Rightarrow> node \<Rightarrow> oserror + node" where
  "shutil_move src dst fs =
     (let real_dst = dst @ [last src]
      in if exists fs real_dst then Inl ShutilError else rename src real_dst fs)"

text \<open>A system call as a statement: its error becomes the exception.\<close>

definition os_call :: "(node \<Rightarrow> oserror + node) \<Rightarrow> (node, unit) prog" where
  "os_call f fs = (case f fs of Inl e \<Rightarrow> (Inl (OSError e), fs) | Inr fs' \<Rightarrow> (Inr (), fs'))"

definition os_read :: "(node \<Rightarrow> oserror + 'a) \<Rightarrow> (node, 'a) prog" where
  "os_read f fs = (case f fs of Inl e \<Rightarrow> (Inl (OSError e), fs) | Inr a \<Rightarrow> (Inr a, fs))"

text \<open>A \<^verbatim>\<open>for\<close> loop over a list that was computed before the loop.\<close>

fun pforeach :: "'a list \<Rightarrow> ('a \<Rightarrow> ('s, unit) prog) \<Rightarrow> ('s, unit) prog" where
  "pforeach [] body = pret ()"
| "pforeach (x # xs) body = pbind (body x) (\<lambda>_. pforeach xs body)"

section \<open>Extractor\<close>

text \<open>The path as the string Python holds: the components joined with slashes.\<close>

definition path_str :: "path \<Rightarrow> string" where
  "path_str p = concat (map (\<lambda>c. CHR ''/'' # c) p)"

text \<open>
  \<^verbatim>\<open>zipfile.ZipFile(archive_filename, "r")\<close>: the file is opened, which fails with
  the error of the kernel when the path names no file; opening reads the central
  directory, and bytes that are no archive are refused with \<^verbatim>\<open>BadZipFile\<close>.
\<close>

definition ZipFile :: "path \<Rightarrow> (node, (path \<times> member_data) list) prog" where
  "ZipFile archive_filename fs =
     (case stat fs archive_filename of
        Inl e \<Rightarrow> (Inl (OSError e), fs)
      | Inr (Dir _) \<Rightarrow> (Inl (OSError IsADirectoryError), fs)
      | Inr (File (Raw _)) \<Rightarrow> (Inl BadZipFile, fs)
      | Inr (File (Zip members)) \<Rightarrow> (Inr members, fs))"

text \<open>
  \<^verbatim>\<open>ZipFile._extract_member\<close>: the components of the member's name that are empty,
  \<^verbatim>\<open>.\<close> or \<^verbatim>\<open>..\<close> are dropped; the upper directories are made when they do not
  exist; a directory member is made unless it is there; a file member is opened in the
  archive first (a member that cannot be opened raises here), then the target file is
  opened for writing, then the bytes are copied (a member that cannot be read to its end
  raises here, and what was copied stays in the file).
\<close>

definition arcname :: "path \<Rightarrow> path" where
  "arcname p = filter (\<lambda>x. x \<noteq> [] \<and> x \<noteq> ''.'' \<and> x \<noteq> ''..'') p"

definition extract_member :: "path \<Rightarrow> path \<times> member_data \<Rightarrow> (node, unit) prog" where
  "extract_member targetdir member =
     (let targetpath = targetdir @ arcname (fst member);
          upperdirs = butlast targetpath
      in pthen
           (\<lambda>fs. if upperdirs \<noteq> [] \<and> \<not> exists fs upperdirs
                 then os_call (makedirs False upperdirs) fs else pret () fs)
           (case snd member of
              MDir \<Rightarrow> (\<lambda>fs. if isdir fs targetpath then pret () fs
                             else os_call (mkdir targetpath) fs)
            | MDamaged \<Rightarrow> praise BadZipFile
            | MRefused cls \<Rightarrow> praise (OtherException cls)
            | MFile bytes \<Rightarrow> os_call (write_file targetpath (Raw bytes))
            | MBadCRC written \<Rightarrow>
                pthen (os_call (write_file targetpath (Raw written))) (praise BadZipFile)
            | MCorrupt cls written \<Rightarrow>
                pthen (os_call (write_file targetpath (Raw written)))
                      (praise (OtherException cls))))"

definition extractall :: "(path \<times> member_data) list \<Rightarrow> path \<Rightarrow> (node, unit) prog" where
  "extractall members targetdir = pforeach members (extract_member targetdir)"

text \<open>
  \<^verbatim>\<open>
  def remove_intermediary_dir(extracted_dir):
      subdirs = os.listdir(extracted_dir)
      if len(subdirs) == 1:
          for filename in glob.iglob(os.path.join(extracted_dir, subdirs[0], "*")):
              shutil.move(filename, extracted_dir)
          os.rmdir(os.path.join(extracted_dir, subdirs[0]))
  \<close>
\<close>

definition remove_intermediary_dir :: "path \<Rightarrow> (node, unit) prog" where
  "remove_intermediary_dir extracted_dir =
     pbind (os_read (listdir extracted_dir)) (\<lambda>subdirs.
       if length subdirs = 1 then
         pbind (\<lambda>fs. pret (iglob_star (extracted_dir @ [subdirs ! 0]) fs) fs) (\<lambda>filenames.
           pthen (pforeach filenames (\<lambda>filename. os_call (shutil_move filename extracted_dir)))
                 (os_call (rmdir (extracted_dir @ [subdirs ! 0]))))
       else pret ())"

text \<open>
  \<^verbatim>\<open>
  def remove_empty_dirs(directory):
      for root, dirs, files in os.walk(directory):
          if not dirs and not files:
              os.rmdir(root)
  \<close>
  \<^verbatim>\<open>os.walk\<close> is called with its default \<^verbatim>\<open>topdown=True\<close>: a directory is listed
  and handed to the loop body before any of its subdirectories is. \<open>walk root n\<close> visits
  the directory \<open>root\<close> whose subtree is \<open>n\<close>: the body runs on \<open>root\<close>, then the
  subdirectories are walked in the order of the listing. The body removes nothing but
  the directory it is handed, and only when that one has no entry, so the subtree below
  a directory still to visit is what it was when its parent was listed.
\<close>

function walk :: "path \<Rightarrow> node \<Rightarrow> (node, unit) prog"
  and walk_dirs :: "path \<Rightarrow> (name \<times> node) list \<Rightarrow> (node, unit) prog" where
  "walk root (File c) = pret ()"
| "walk root (Dir es) =
     pthen (if es = [] then os_call (rmdir root) else pret ()) (walk_dirs root es)"
| "walk_dirs root [] = pret ()"
| "walk_dirs root ((n, c) # es) = pthen (walk (root @ [n]) c) (walk_dirs root es)"
  by pat_completeness auto
termination
  by (relation "measure (\<lambda>x. case x of
         Inl (root, n) \<Rightarrow> size n
       | Inr (root, es) \<Rightarrow> size_list (size_prod (\<lambda>_. 0) size) es)") auto

definition remove_empty_dirs :: "path \<Rightarrow> (node, unit) prog" where
  "remove_empty_dirs directory fs =
     (case lookup fs directory of
        None \<Rightarrow> pret () fs
      | Some n \<Rightarrow> walk directory n fs)"

text \<open>
  \<^verbatim>\<open>
  def extract(self, archive_filename, destination, cleanup=True):
      try:
          with zipfile.ZipFile(archive_filename, "r") as z:
              destination = os.path.join(self.basedir, destination)
              z.extractall(destination)
              if cleanup:
                  self.remove_intermediary_dir(destination)
                  self.remove_empty_dirs(destination)
              return destination
      except zipfile.BadZipFile:
          raise ExtractionError("Cannot extract file: " + archive_filename)
  \<close>
  \<open>save_as\<close> is taken to be one path component.
\<close>

definition extract_body :: "path \<Rightarrow> path \<Rightarrow> name \<Rightarrow> bool \<Rightarrow> (node, path) prog" where
  "extract_body basedir archive_filename save_as cleanup =
     pbind (ZipFile archive_filename) (\<lambda>z.
       let destination = basedir @ [save_as]
       in pthen (extractall z destination)
         (pthen (if cleanup
                 then pthen (remove_intermediary_dir destination) (remove_empty_dirs destination)
                 else pret ())
            (pret destination)))"

definition Extractor_extract :: "path \<Rightarrow> path \<Rightarrow> name \<Rightarrow> bool \<Rightarrow> (node, path) prog" where
  "Extractor_extract basedir archive_filename save_as cleanup =
     pcatch (extract_body basedir archive_filename save_as cleanup)
       (\<lambda>e. case e of
          BadZipFile \<Rightarrow> praise (ExtractionError (''Cannot extract file: '' @ path_str archive_filename))
        | _ \<Rightarrow> praise e)"

section \<open>The world outside the program\<close>

text \<open>
  The state of a run: the file system, the lines printed, what the browser was asked to
  do, the HTTP requests sent, the processes started and the number of times the clock
  was read.
\<close>

datatype driver_event =
    Start
  | ImplicitlyWait nat
  | Get string
  | Clear string
  | SendKeys string string
  | SendEnter string
  | WaitFor string nat
  | ExecuteScript string
  | GetCookies
  | Close
  | Quit

record cookie =
  cookie_name :: string
  cookie_value :: string
  cookie_domain :: string
  cookie_path :: string

record request =
  url :: string
  params :: "(string \<times> string) list"
  data :: "(string \<times> string) list"
  cookies :: "cookie list"

record response =
  ok :: bool
  raw :: content

record datetime =
  year :: nat
  month :: nat
  day :: nat
  hour :: nat
  minute :: nat
  second :: nat

record world =
  filesystem :: node
  printed :: "string list"
  browser :: "driver_event list"
  posted :: "request list"
  spawned :: "string list list"
  clock_reads :: nat

text \<open>
  What the program cannot decide: the answers of the portal through the browser and
  through \<^verbatim>\<open>requests\<close>, the clock, the directory and the names \<^verbatim>\<open>tempfile\<close>
  uses, the working directory of the process, and whether \<^verbatim>\<open>rsync\<close> can be
  started. \<open>footer_located u p t\<close> says whether, after the
  credentials \<open>u\<close> and \<open>p\<close> were submitted, the wait of \<open>t\<close> seconds finds the element
  with id \<^verbatim>\<open>footer\<close>. \<open>parent_folder_id c\<close> is the value of the element named
  \<^verbatim>\<open>parent_folder_id\<close> on the files page of course \<open>c\<close>, \<open>None\<close> when the page has
  no such element. Failures of the browser or of the network other than these are not
  part of the model.
\<close>

record environment =
  footer_located :: "string \<Rightarrow> string \<Rightarrow> nat \<Rightarrow> bool"
  parent_folder_id :: "string \<Rightarrow> string option"
  csrf_token :: string
  session_cookies :: "cookie list"
  post_response :: "request \<Rightarrow> response"
  now :: "nat \<Rightarrow> datetime"
  tempdir :: path
  temp_names :: "string list"
  cwd :: path
  rsync_installed :: bool

text \<open>
  The module \<^verbatim>\<open>config\<close> that \<^verbatim>\<open>studip_sync.py\<close> imports its \<^verbatim>\<open>config\<close> object from
  is not the \<^verbatim>\<open>config.py\<close> of this revision; the four attributes the code reads are
  taken as given. A course is the dictionary with the keys \<^verbatim>\<open>course_id\<close>,
  \<^verbatim>\<open>save_as\<close> and, optionally, \<^verbatim>\<open>sync_only\<close>. The target is the string the
  configuration holds.
\<close>

record course =
  course_id :: string
  save_as :: string
  sync_only :: "string option"

record config =
  username :: string
  password :: string
  target :: string
  courses :: "course list"

definition on_fs :: "(node, 'a) prog \<Rightarrow> (world, 'a) prog" where
  "on_fs m w = (case m (filesystem w) of (r, fs') \<Rightarrow> (r, w\<lparr>filesystem := fs'\<rparr>))"

definition print :: "string \<Rightarrow> (world, unit) prog" where
  "print line w = (Inr (), w\<lparr>printed := printed w @ [line]\<rparr>)"

definition drive :: "driver_event \<Rightarrow> (world, unit) prog" where
  "drive ev w = (Inr (), w\<lparr>browser := browser w @ [ev]\<rparr>)"

text \<open>
  The directory that a path given as a string names, as \<^verbatim>\<open>os.path.abspath\<close> computes
  it: the components between the slashes, from the root when the string starts with a
  slash and from the working directory otherwise, where an empty component and
  \<^verbatim>\<open>.\<close> are dropped and \<^verbatim>\<open>..\<close> steps to the parent. It is the entry the kernel
  finds for the string when every directory that the string leaves through \<^verbatim>\<open>..\<close>
  exists (the file system of the model has no symbolic links).
\<close>

fun split_at :: "char \<Rightarrow> string \<Rightarrow> string list" where
  "split_at sep [] = [[]]"
| "split_at sep (c # cs) =
     (if c = sep then [] # split_at sep cs
      else (case split_at sep cs of [] \<Rightarrow> [[c]] | x # xs \<Rightarrow> (c # x) # xs))"

fun normpath :: "path \<Rightarrow> name list \<Rightarrow> path" where
  "normpath cur [] = cur"
| "normpath cur (x # xs) =
     (if x = [] \<or> x = ''.'' then normpath cur xs
      else if x = ''..'' then normpath (butlast cur) xs
      else normpath (cur @ [x]) xs)"

definition abspath :: "environment \<Rightarrow> string \<Rightarrow> path" where
  "abspath env s =
     normpath (case s of [] \<Rightarrow> cwd env | c # _ \<Rightarrow> if c = CHR ''/'' then [] else cwd env)
       (split_at CHR ''/'' s)"

text \<open>\<^verbatim>\<open>os.makedirs\<close> of a path given as a string; the empty string names nothing.\<close>

definition makedirs_str :: "environment \<Rightarrow> bool \<Rightarrow> string \<Rightarrow> node \<Rightarrow> oserror + node" where
  "makedirs_str env exist_ok s fs =
     (if s = [] then Inl FileNotFoundError else makedirs exist_ok (abspath env s) fs)"

section \<open>RsyncWrapper\<close>

text \<open>
  \<^verbatim>\<open>datetime.strftime(t, "%Y-%m-%d_%H+%M+%S")\<close>: the year as the decimal number it
  is (the C library does not pad \<^verbatim>\<open>%Y\<close>), every other field in two digits.
\<close>

fun digits :: "nat \<Rightarrow> nat \<Rightarrow> string" where
  "digits 0 n = []"
| "digits (Suc k) n = digits k (n div 10) @ [char_of (48 + n mod 10)]"

fun decimal :: "nat \<Rightarrow> string" where
  "decimal n = (if n < 10 then [char_of (48 + n)] else decimal (n div 10) @ [char_of (48 + n mod 10)])"

definition strftime :: "datetime \<Rightarrow> string" where
  "strftime t =
     decimal (year t) @ ''-'' @ digits 2 (month t) @ ''-'' @ digits 2 (day t) @ ''_'' @
     digits 2 (hour t) @ ''+'' @ digits 2 (minute t) @ ''+'' @ digits 2 (second t)"

definition datetime_now :: "environment \<Rightarrow> (world, datetime) prog" where
  "datetime_now env w = (Inr (now env (clock_reads w)), w\<lparr>clock_reads := Suc (clock_reads w)\<rparr>)"

text \<open>
  \<^verbatim>\<open>
  def __init__(self):
      timestr = datetime.strftime(datetime.now(), "%Y-%m-%d_%H+%M+%S")
      self.suffix = "_" + timestr + ".old"
  \<close>
  The object is its suffix.
\<close>

definition RsyncWrapper_init :: "environment \<Rightarrow> (world, string) prog" where
  "RsyncWrapper_init env =
     pbind (datetime_now env) (\<lambda>t.
       let timestr = strftime t
       in pret (''_'' @ timestr @ ''.old''))"

text \<open>
  What \<^verbatim>\<open>rsync --recursive --checksum --backup --suffix=SUFFIX SRC/ DEST\<close> does, by
  the manual of \<^verbatim>\<open>rsync\<close> and, where the manual is silent, by the code of rsync 3.
  The entries of the source directory are taken one by one; later entries of a listing
  that repeat a name do not exist for the file system and are skipped.
  \<^item> A source file whose name is free in the destination is copied. When the destination
    has a file of that name: with the same content (\<^verbatim>\<open>--checksum\<close> compares size and
    checksum, which the model takes for the comparison of the bytes) nothing is done;
    with another content (\<^verbatim>\<open>--backup\<close>) the destination file is first kept under its
    name followed by the suffix, replacing whatever bears that name, and then replaced by
    the copy. When the destination has a directory of that name, the directory is
    replaced if it is empty, and otherwise the source file is skipped with an error
    (neither \<^verbatim>\<open>--force\<close> nor \<^verbatim>\<open>--delete\<close> is given).
  \<^item> A source directory is descended into (\<^verbatim>\<open>--recursive\<close>), and made in the
    destination when it is not there. A destination file in its place is moved out of the
    way as a backup, unless its own name ends in the suffix, in which case rsync takes
    it for a backup and unlinks it.
  \<^item> Nothing else in the destination is touched: \<^verbatim>\<open>--delete\<close> is not given.
  The order of a directory listing and everything but names and bytes (times,
  permissions, owners) are not part of the model. The source tree is read as it is when
  the process starts, which is what rsync sees when neither of the two directories lies
  inside the other.
\<close>

definition ends_with :: "string \<Rightarrow> string \<Rightarrow> bool" where
  "ends_with suffix n = (length suffix \<le> length n \<and> drop (length n - length suffix) n = suffix)"

definition is_backup_file :: "string \<Rightarrow> name \<Rightarrow> bool" where
  "is_backup_file suffix n = (length suffix < length n \<and> ends_with suffix n)"

text \<open>
  The destination directory once room is made for the source entry \<open>s\<close> of name \<open>n\<close>:
  the backup of the file that \<open>s\<close> is about to replace.
\<close>

definition backed_up :: "string \<Rightarrow> name \<Rightarrow> node \<Rightarrow> (name \<times> node) list \<Rightarrow> (name \<times> node) list" where
  "backed_up suffix n s ds =
     (case map_of ds n of
        Some (File x) \<Rightarrow>
          (if s = File x then ds
           else if (case s of Dir _ \<Rightarrow> is_backup_file suffix n | File _ \<Rightarrow> False) then ds
           else AList.update (n @ suffix) (File x) ds)
      | _ \<Rightarrow> ds)"

text \<open>
  \<open>rsync_item suffix s d\<close> is what the destination holds under the name of the source
  entry \<open>s\<close> once the entry is done, when it held \<open>d\<close> before; \<open>rsync_list suffix ss ds\<close>
  are the entries of the destination directory once the source entries \<open>ss\<close> are done.
\<close>

function rsync_item :: "string \<Rightarrow> node \<Rightarrow> node option \<Rightarrow> node"
  and rsync_list :: "string \<Rightarrow> (name \<times> node) list \<Rightarrow> (name \<times> node) list \<Rightarrow> (name \<times> node) list" where
  "rsync_item suffix (File y) None = File y"
| "rsync_item suffix (File y) (Some (File x)) = File y"
| "rsync_item suffix (File y) (Some (Dir ds)) = (if ds = [] then File y else Dir ds)"
| "rsync_item suffix (Dir ss) None = Dir (rsync_list suffix ss [])"
| "rsync_item suffix (Dir ss) (Some (File x)) = Dir (rsync_list suffix ss [])"
| "rsync_item suffix (Dir ss) (Some (Dir ds)) = Dir (rsync_list suffix ss ds)"
| "rsync_list suffix [] ds = ds"
| "rsync_list suffix ((n, s) # ss) ds =
     rsync_list suffix (AList.delete n ss)
       (AList.update n (rsync_item suffix s (map_of ds n)) (backed_up suffix n s ds))"
  by pat_completeness auto
termination
proof (relation "measure (\<lambda>x. case x of
         Inl (suffix, s, d) \<Rightarrow> size s
       | Inr (suffix, ss, ds) \<Rightarrow> size_list (size_prod (\<lambda>_. 0) size) ss)")
  have le: "size_list (size_prod (\<lambda>_. 0) size) (AList.delete n ss)
              \<le> size_list (size_prod (\<lambda>_. 0) size) ss" for n :: name and ss :: "(name \<times> node) list"
    by (induction ss) (auto simp: AList.delete_eq)
  show "((Inr (suffix, AList.delete n ss, AList.update n item (backed_up suffix n s ds))),
         Inr (suffix, (n, s) # ss, ds))
        \<in> measure (\<lambda>x. case x of
         Inl (suffix, s, d) \<Rightarrow> size s
       | Inr (suffix, ss, ds) \<Rightarrow> size_list (size_prod (\<lambda>_. 0) size) ss)"
    for suffix n ss item s ds
    using le [of n ss] by simp
qed auto

text \<open>The file system with the entry at an existing path replaced.\<close>

definition put :: "path \<Rightarrow> node \<Rightarrow> node \<Rightarrow> node" where
  "put p n fs =
     (if p = [] then n
      else case alter (\<lambda>_. Inr (Some n)) p fs of Inl _ \<Rightarrow> fs | Inr fs' \<Rightarrow> fs')"

text \<open>
  The run of rsync from the directory \<open>src\<close> into \<open>dst\<close>. A source that is no directory
  is an error and nothing is done; so is a destination that is a file. A destination that
  does not exist is made first (one directory, in a parent that exists).
\<close>

definition rsync :: "string \<Rightarrow> path \<Rightarrow> path \<Rightarrow> node \<Rightarrow> node" where
  "rsync suffix src dst fs =
     (case lookup fs src of
        Some (Dir ss) \<Rightarrow>
          (case lookup fs dst of
             Some (Dir ds) \<Rightarrow> put dst (Dir (rsync_list suffix ss ds)) fs
           | Some (File _) \<Rightarrow> fs
           | None \<Rightarrow>
               (case mkdir dst fs of
                  Inl _ \<Rightarrow> fs
                | Inr fs' \<Rightarrow> put dst (Dir (rsync_list suffix ss [])) fs'))
      | _ \<Rightarrow> fs)"

text \<open>
  The process that a command line starts. The only command line the code builds is the
  one of \<^verbatim>\<open>RsyncWrapper.sync\<close>, with a source that ends in a slash; the arguments are
  resolved in the working directory of the process. For any other command line the
  model leaves the file system as it is.
\<close>

definition process :: "environment \<Rightarrow> string list \<Rightarrow> node \<Rightarrow> node" where
  "process env argv fs =
     (case argv of
        [prog, r, c, b, opt, source, destination] \<Rightarrow>
          (if prog = ''rsync'' \<and> r = ''--recursive'' \<and> c = ''--checksum'' \<and> b = ''--backup''
              \<and> take 9 opt = ''--suffix='' \<and> source \<noteq> [] \<and> last source = CHR ''/''
           then rsync (drop 9 opt) (abspath env source) (abspath env destination) fs
           else fs)
      | _ \<Rightarrow> fs)"

text \<open>
  \<^verbatim>\<open>subprocess.call(argv)\<close> starts the program, waits for it and returns its exit
  status, which the caller drops; it raises when the program cannot be started.
\<close>

definition subprocess_call :: "environment \<Rightarrow> string list \<Rightarrow> (world, unit) prog" where
  "subprocess_call env argv w =
     (if rsync_installed env
      then (Inr (), w\<lparr>spawned := spawned w @ [argv],
                      filesystem := process env argv (filesystem w)\<rparr>)
      else (Inl (OSError FileNotFoundError), w))"

text \<open>
  \<^verbatim>\<open>
  def sync(self, source, destination):
      subprocess.call(["rsync", "--recursive", "--checksum", "--backup",
                       "--suffix=" + self.suffix, source, destination])
  \<close>
\<close>

definition RsyncWrapper_sync :: "environment \<Rightarrow> string \<Rightarrow> string \<Rightarrow> string \<Rightarrow> (world, unit) prog" where
  "RsyncWrapper_sync env suffix source destination =
     subprocess_call env
       [''rsync'', ''--recursive'', ''--checksum'', ''--backup'', ''--suffix='' @ suffix,
        source, destination]"

section \<open>Downloader\<close>

definition login_url :: string where
  "login_url = ''https://studip.uni-passau.de/studip/index.php?again=yes&sso=shib''"

definition files_url :: string where
  "files_url = ''https://studip.uni-passau.de/studip/dispatch.php/course/files?cid=''"

definition bulk_url :: string where
  "bulk_url = ''https://studip.uni-passau.de/studip/dispatch.php/file/bulk/''"

text \<open>
  \<^verbatim>\<open>WebDriverWait(self.driver, timeout).until(presence_of_element_located((By.ID, id)))\<close>
  returns the element or raises \<^verbatim>\<open>TimeoutException\<close>.
\<close>

definition wait_until_located :: "environment \<Rightarrow> string \<Rightarrow> string \<Rightarrow> string \<Rightarrow> nat \<Rightarrow> (world, unit) prog" where
  "wait_until_located env u p element timeout =
     pthen (drive (WaitFor element timeout))
       (if footer_located env u p timeout then pret () else praise TimeoutException)"

text \<open>
  \<^verbatim>\<open>
  def _login(self, username, password):
      self.driver.get("https://studip.uni-passau.de/studip/index.php?again=yes&sso=shib")
      username_element = self.driver.find_element_by_id("username")
      username_element.clear()
      username_element.send_keys(username)
      password_element = self.driver.find_element_by_id("password")
      password_element.clear()
      password_element.send_keys(password)
      password_element.send_keys(Keys.ENTER)
      try:
          element = WebDriverWait(self.driver, 7).until(
              expected_conditions.presence_of_element_located((By.ID, "footer")))
      except:
          print("Login failed!")
          print("Aborting")
          self.driver.quit()
          exit(1)
  \<close>
\<close>

definition login :: "environment \<Rightarrow> string \<Rightarrow> string \<Rightarrow> (world, unit) prog" where
  "login env u p =
     pthen (drive (Get login_url))
    (pthen (drive (Clear ''username''))
    (pthen (drive (SendKeys ''username'' u))
    (pthen (drive (Clear ''password''))
    (pthen (drive (SendKeys ''password'' p))
    (pthen (drive (SendEnter ''password''))
    (pcatch (wait_until_located env u p ''footer'' 7)
       (\<lambda>e. pthen (print ''Login failed!'')
            (pthen (print ''Aborting'')
            (pthen (drive Quit)
                   (praise (SystemExit 1)))))))))))"

text \<open>
  \<^verbatim>\<open>
  def __init__(self, workdir, username, password):
      self.workdir = workdir
      options = Options()
      options.add_argument("--headless")
      self.driver = webdriver.Firefox(firefox_options=options)
      self.driver.implicitly_wait(10)
      self._login(username, password)
  \<close>
  The object is its \<open>workdir\<close>.
\<close>

definition Downloader_init :: "environment \<Rightarrow> path \<Rightarrow> string \<Rightarrow> string \<Rightarrow> (world, path) prog" where
  "Downloader_init env workdir u p =
     pthen (drive Start)
    (pthen (drive (ImplicitlyWait 10))
    (pthen (login env u p)
           (pret workdir)))"

definition Downloader_exit :: "(world, unit) prog" where
  "Downloader_exit = drive Close"

text \<open>
  \<^verbatim>\<open>self.driver.find_element_by_name("parent_folder_id").get_attribute("value")\<close>
\<close>

definition find_parent_folder_id :: "environment \<Rightarrow> string \<Rightarrow> (world, string) prog" where
  "find_parent_folder_id env cid =
     (case parent_folder_id env cid of
        None \<Rightarrow> praise NoSuchElementException
      | Some v \<Rightarrow> pret v)"

text \<open>\<^verbatim>\<open>a or b\<close> for an optional string \<open>a\<close>: \<open>b\<close> when \<open>a\<close> is \<^verbatim>\<open>None\<close> or empty.\<close>

definition py_or :: "string option \<Rightarrow> string \<Rightarrow> string" where
  "py_or a b = (case a of None \<Rightarrow> b | Some v \<Rightarrow> if v = [] then b else v)"

definition requests_post :: "environment \<Rightarrow> request \<Rightarrow> (world, response) prog" where
  "requests_post env rq w = (Inr (post_response env rq), w\<lparr>posted := posted w @ [rq]\<rparr>)"

text \<open>
  \<^verbatim>\<open>
  def download(self, course_id, sync_only=None):
      self.driver.get("https://studip.uni-passau.de/studip/dispatch.php/course/files?cid=" + course_id)
      try:
          folder_id = self.driver.find_element_by_name("parent_folder_id").get_attribute("value")
      except NoSuchElementException:
          raise DownloadError("Could not locate parent folder for course: " + course_id)
      params = {"cid": course_id}
      url = "https://studip.uni-passau.de/studip/dispatch.php/file/bulk/" + folder_id
      csrf_token = self.driver.execute_script("return STUDIP.CSRF_TOKEN.value")
      data = {"security_token": csrf_token, "ids[]": sync_only or folder_id, "download": 1}
      selenium_cookies = self.driver.get_cookies()
      cookie_jar = requests.cookies.RequestsCookieJar()
      for cookie in selenium_cookies:
          cookie_jar.set(cookie["name"], cookie["value"], domain=cookie["domain"], path=cookie["path"])
      with requests.post(url, params=params, data=data, cookies=cookie_jar, stream=True) as r:
          if not r.ok:
              raise DownloadError("Download failed " + url)
          path = os.path.join(self.workdir, course_id)
          with open(path, "wb") as f:
              shutil.copyfileobj(r.raw, f)
              return path
  \<close>
  \<open>course_id\<close> is taken to be one path component.
\<close>

definition download :: "environment \<Rightarrow> path \<Rightarrow> string \<Rightarrow> string option \<Rightarrow> (world, path) prog" where
  "download env workdir cid only =
     pthen (drive (Get (files_url @ cid)))
    (pbind (pcatch (find_parent_folder_id env cid)
              (\<lambda>e. case e of
                 NoSuchElementException \<Rightarrow>
                   praise (DownloadError (''Could not locate parent folder for course: '' @ cid))
               | _ \<Rightarrow> praise e))
       (\<lambda>folder_id.
          let rq_params = [(''cid'', cid)];
              rq_url = bulk_url @ folder_id
          in pthen (drive (ExecuteScript ''return STUDIP.CSRF_TOKEN.value''))
            (let rq_data = [(''security_token'', csrf_token env),
                            (''ids[]'', py_or only folder_id),
                            (''download'', ''1'')]
             in pthen (drive GetCookies)
               (let cookie_jar = session_cookies env
                in pbind (requests_post env
                            \<lparr>url = rq_url, params = rq_params, data = rq_data, cookies = cookie_jar\<rparr>)
                  (\<lambda>r. if \<not> ok r then praise (DownloadError (''Download failed '' @ rq_url))
                       else let path = workdir @ [cid]
                            in pthen (on_fs (os_call (write_file path (raw r))))
                                     (pret path))))))"

section \<open>StudipSync\<close>

text \<open>
  \<^verbatim>\<open>tempfile.mkdtemp(prefix=...)\<close>: the names drawn are tried in turn until
  \<^verbatim>\<open>os.mkdir\<close> does not find the name taken. The directory of \<^verbatim>\<open>tempfile\<close> is an
  absolute path, and the names it draws are made of letters, digits and underscores.
\<close>

fun mkdtemp_try :: "path \<Rightarrow> string \<Rightarrow> string list \<Rightarrow> node \<Rightarrow> oserror + path \<times> node" where
  "mkdtemp_try dir prefix [] fs = Inl FileExistsError"
| "mkdtemp_try dir prefix (r # rs) fs =
     (case mkdir (dir @ [prefix @ r]) fs of
        Inl FileExistsError \<Rightarrow> mkdtemp_try dir prefix rs fs
      | Inl e \<Rightarrow> Inl e
      | Inr fs' \<Rightarrow> Inr (dir @ [prefix @ r], fs'))"

definition mkdtemp :: "environment \<Rightarrow> string \<Rightarrow> (node, path) prog" where
  "mkdtemp env prefix fs =
     (case mkdtemp_try (tempdir env) prefix (temp_names env) fs of
        Inl e \<Rightarrow> (Inl (OSError e), fs)
      | Inr (p, fs') \<Rightarrow> (Inr p, fs'))"

record studip_sync =
  workdir :: path
  download_dir :: path
  extract_dir :: path
  destination_dir :: string

text \<open>
  \<^verbatim>\<open>
  def __init__(self):
      self.workdir = tempfile.mkdtemp(prefix="studip-sync")
      self.download_dir = os.path.join(self.workdir, "zips")
      self.extract_dir = os.path.join(self.workdir, "extracted")
      self.destination_dir = config.target
      os.makedirs(self.download_dir)
      os.makedirs(self.extract_dir)
      os.makedirs(self.destination_dir, exist_ok=True)
  \<close>
\<close>

definition StudipSync_init :: "environment \<Rightarrow> config \<Rightarrow> (world, studip_sync) prog" where
  "StudipSync_init env cfg =
     pbind (on_fs (mkdtemp env ''studip-sync'')) (\<lambda>wd.
       let self = \<lparr>workdir = wd, download_dir = wd @ [''zips''],
                   extract_dir = wd @ [''extracted''], destination_dir = target cfg\<rparr>
       in pthen (on_fs (os_call (makedirs False (download_dir self))))
         (pthen (on_fs (os_call (makedirs False (extract_dir self))))
         (pthen (on_fs (os_call (makedirs_str env True (destination_dir self))))
                (pret self))))"

definition quoted :: "string \<Rightarrow> string" where
  "quoted s = CHR 0x27 # s @ [CHR 0x27]"

text \<open>
  The \<^verbatim>\<open>try\<close> statement of the loop in \<^verbatim>\<open>sync\<close>:
  \<^verbatim>\<open>
  zip_location = downloader.download(course["course_id"], course.get("sync_only"))
  extractor.extract(zip_location, course["save_as"])
  \<close>
\<close>

definition attempt :: "environment \<Rightarrow> studip_sync \<Rightarrow> course \<Rightarrow> (world, path) prog" where
  "attempt env self c =
     pbind (download env (download_dir self) (course_id c) (sync_only c)) (\<lambda>zip_location.
       on_fs (Extractor_extract (extract_dir self) zip_location (save_as c) True))"

text \<open>The two \<^verbatim>\<open>except\<close> clauses of the loop; any other exception is not caught.\<close>

definition handler :: "course \<Rightarrow> exn \<Rightarrow> (world, unit) prog" where
  "handler c e =
     (case e of
        DownloadError _ \<Rightarrow>
          pthen (print (''ERROR: Download failed for '' @ quoted (save_as c)))
         (pthen (print ''       Possible Reasons:'')
         (pthen (print ''       - Folder is bigger than 100MB (Stud.IP does not allow downloads > 100MB)'')
                (print ''       - You are not subscribed to the course and cannot access files'')))
      | ExtractionError _ \<Rightarrow>
          print (''ERROR: Extraction failed for '' @ quoted (save_as c))
      | _ \<Rightarrow> praise e)"

text \<open>
  The body of the loop:
  \<^verbatim>\<open>
  print("Downloading '" + course["save_as"] + "'...")
  try: ...
  except DownloadError as e: ...
  except ExtractionError as e: ...
  \<close>
\<close>

definition sync_course :: "environment \<Rightarrow> studip_sync \<Rightarrow> course \<Rightarrow> (world, unit) prog" where
  "sync_course env self c =
     pthen (print (''Downloading '' @ quoted (save_as c) @ ''...''))
       (pcatch (pthen (attempt env self c) (pret ())) (handler c))"

definition sync_loop :: "environment \<Rightarrow> studip_sync \<Rightarrow> course list \<Rightarrow> (world, unit) prog" where
  "sync_loop env self cs = pforeach cs (sync_course env self)"

text \<open>
  \<^verbatim>\<open>
  def sync(self):
      extractor = Extractor(self.extract_dir)
      rsync = RsyncWrapper()
      print("Logging in...")
      with Downloader(self.download_dir, config.username, config.password) as downloader:
          for course in config.courses:
              ...
      print("Synchronizing with existing files...")
      rsync.sync(self.extract_dir + "/", self.destination_dir)
  \<close>
  \<open>sync_session\<close> is the \<^verbatim>\<open>with\<close> statement of it.
\<close>

definition sync_session :: "environment \<Rightarrow> config \<Rightarrow> studip_sync \<Rightarrow> (world, unit) prog" where
  "sync_session env cfg self =
     pbind (Downloader_init env (download_dir self) (username cfg) (password cfg))
       (\<lambda>downloader. pwith (sync_loop env self (courses cfg)) Downloader_exit)"

definition StudipSync_sync :: "environment \<Rightarrow> config \<Rightarrow> studip_sync \<Rightarrow> (world, unit) prog" where
  "StudipSync_sync env cfg self =
     pbind (RsyncWrapper_init env) (\<lambda>rsync.
       pthen (print ''Logging in...'')
      (pthen (sync_session env cfg self)
      (pthen (print ''Synchronizing with existing files...'')
             (RsyncWrapper_sync env rsync (path_str (extract_dir self) @ ''/'')
                (destination_dir self)))))"

text \<open>
  \<^verbatim>\<open>
  def cleanup(self):
      shutil.rmtree(self.workdir)
  def __exit__(self, exc_type, exc_value, traceback):
      self.cleanup()
  \<close>
\<close>

definition cleanup :: "studip_sync \<Rightarrow> (world, unit) prog" where
  "cleanup self = on_fs (os_call (rmtree (workdir self)))"

definition StudipSync_exit :: "studip_sync \<Rightarrow> (world, unit) prog" where
  "StudipSync_exit self = cleanup self"

text \<open>
  Modelled from the spec: the entry point \<^verbatim>\<open>run\<close> that constructs the orchestrator
  and calls its \<^verbatim>\<open>sync\<close> is not among the source files. The spec has the workspace
  ``created at run start, deleted at run end regardless of outcome'', reached ``via
  scoped-cleanup semantics equivalent to a guaranteed finally block''; with the
  \<^verbatim>\<open>__enter__\<close> and \<^verbatim>\<open>__exit__\<close> that \<^verbatim>\<open>StudipSync\<close> defines this is
  \<^verbatim>\<open>with StudipSync() as s: s.sync()\<close>.
\<close>

definition run :: "environment \<Rightarrow> config \<Rightarrow> (world, unit) prog" where
  "run env cfg =
     pbind (StudipSync_init env cfg) (\<lambda>self.
       pwith (StudipSync_sync env cfg self) (StudipSync_exit self))"

section \<open>Vocabulary of the properties\<close>

text \<open>A statement leaves a component \<open>f\<close> of the state as it found it.\<close>

definition preserves :: "('s \<Rightarrow> 'b) \<Rightarrow> ('s, 'a) prog \<Rightarrow> bool" where
  "preserves f m = (\<forall>s. f (snd (m s)) = f s)"

text \<open>
  A statement keeps a property of the state; in particular it leaves a directory at
  \<open>q\<close> a directory, on the file system alone or in the state of the run.
\<close>

definition kept :: "('s \<Rightarrow> bool) \<Rightarrow> ('s, 'a) prog \<Rightarrow> bool" where
  "kept I m = (\<forall>s. I s \<longrightarrow> I (snd (m s)))"

abbreviation keeps_dir :: "path \<Rightarrow> (node, 'a) prog \<Rightarrow> bool" where
  "keeps_dir q \<equiv> kept (\<lambda>fs. isdir fs q)"

abbreviation stays_dir :: "path \<Rightarrow> (world, 'a) prog \<Rightarrow> bool" where
  "stays_dir q \<equiv> kept (\<lambda>w. isdir (filesystem w) q)"

text \<open>A statement raises nothing but \<open>OSError\<close>.\<close>

fun os_only :: "exn + 'a \<Rightarrow> bool" where
  "os_only (Inr _) = True"
| "os_only (Inl (OSError _)) = True"
| "os_only (Inl _) = False"

definition raises_os_only :: "('s, 'a) prog \<Rightarrow> bool" where
  "raises_os_only m = (\<forall>s. os_only (fst (m s)))"

text \<open>The request \<^verbatim>\<open>download\<close> posts for a course whose root folder is \<open>folder_id\<close>.\<close>

definition bulk_request :: "environment \<Rightarrow> string \<Rightarrow> string option \<Rightarrow> string \<Rightarrow> request" where
  "bulk_request env cid only folder_id =
     \<lparr>url = bulk_url @ folder_id,
      params = [(''cid'', cid)],
      data = [(''security_token'', csrf_token env),
              (''ids[]'', case only of None \<Rightarrow> folder_id
                          | Some v \<Rightarrow> if v = [] then folder_id else v),
              (''download'', ''1'')],
      cookies = session_cookies env\<rparr>"

text \<open>
  The three outcomes the spec gives a course, read off the portal alone: the download
  fails when the root folder is not found or the response is no success; the extraction
  fails when the bytes fetched are no archive or \<^verbatim>\<open>zipfile\<close> refuses a member of the
  archive with \<^verbatim>\<open>BadZipFile\<close>.
\<close>

datatype outcome = Staged | DownloadFailed | ExtractionFailed

definition fetched :: "environment \<Rightarrow> course \<Rightarrow> content option" where
  "fetched env c =
     (case parent_folder_id env (course_id c) of
        None \<Rightarrow> None
      | Some folder_id \<Rightarrow>
          (let r = post_response env (bulk_request env (course_id c) (sync_only c) folder_id)
           in if ok r then Some (raw r) else None))"

fun bad_member :: "member_data \<Rightarrow> bool" where
  "bad_member MDamaged = True"
| "bad_member (MBadCRC _) = True"
| "bad_member _ = False"

fun damaged :: "(path \<times> member_data) list \<Rightarrow> bool" where
  "damaged [] = False"
| "damaged (m # ms) = (bad_member (snd m) \<or> damaged ms)"

text \<open>The name under which rsync keeps the file at a path that it replaces.\<close>

definition backup_name :: "string \<Rightarrow> path \<Rightarrow> path" where
  "backup_name suffix p = butlast p @ [last p @ suffix]"

text \<open>
  A path whose components are names: none is empty, \<^verbatim>\<open>.\<close> or \<^verbatim>\<open>..\<close>, and none
  holds a slash.
\<close>

definition plain :: "path \<Rightarrow> bool" where
  "plain p = (\<forall>x\<in>set p. x \<noteq> [] \<and> x \<noteq> ''.'' \<and> x \<noteq> ''..'' \<and> CHR ''/'' \<notin> set x)"

text \<open>No name in a tree ends in the suffix.\<close>

fun unsuffixed :: "string \<Rightarrow> node \<Rightarrow> bool"
  and unsuffixed_list :: "string \<Rightarrow> (name \<times> node) list \<Rightarrow> bool" where
  "unsuffixed suffix (File c) = True"
| "unsuffixed suffix (Dir es) = unsuffixed_list suffix es"
| "unsuffixed_list suffix [] = True"
| "unsuffixed_list suffix ((n, c) # es) =
     (\<not> ends_with suffix n \<and> unsuffixed suffix c \<and> unsuffixed_list suffix es)"

fun intact :: "content \<Rightarrow> bool" where
  "intact (Raw _) = False"
| "intact (Zip ms) = (\<not> damaged ms)"

definition course_outcome :: "environment \<Rightarrow> course \<Rightarrow> outcome" where
  "course_outcome env c =
     (case fetched env c of
        None \<Rightarrow> DownloadFailed
      | Some a \<Rightarrow> if intact a then Staged else ExtractionFailed)"

text \<open>The exceptions that the \<^verbatim>\<open>except\<close> clauses of the loop take.\<close>

fun caught_by_loop :: "exn \<Rightarrow> bool" where
  "caught_by_loop (DownloadError _) = True"
| "caught_by_loop (ExtractionError _) = True"
| "caught_by_loop _ = False"

text \<open>The outcome that the result of the \<^verbatim>\<open>try\<close> statement stands for, if any.\<close>

fun outcome_of_result :: "exn + 'a \<Rightarrow> outcome option" where
  "outcome_of_result (Inr _) = Some Staged"
| "outcome_of_result (Inl (DownloadError _)) = Some DownloadFailed"
| "outcome_of_result (Inl (ExtractionError _)) = Some ExtractionFailed"
| "outcome_of_result (Inl _) = None"

text \<open>The lines the loop prints for a course with a given outcome.\<close>

definition report :: "course \<Rightarrow> outcome \<Rightarrow> string list" where
  "report c out =
     (''Downloading '' @ quoted (save_as c) @ ''...'') #
     (case out of
        Staged \<Rightarrow> []
      | DownloadFailed \<Rightarrow>
          [''ERROR: Download failed for '' @ quoted (save_as c),
           ''       Possible Reasons:'',
           ''       - Folder is bigger than 100MB (Stud.IP does not allow downloads > 100MB)'',
           ''       - You are not subscribed to the course and cannot access files'']
      | ExtractionFailed \<Rightarrow> [''ERROR: Extraction failed for '' @ quoted (save_as c)])"

section \<open>Example inputs\<close>

text \<open>
  A portal with five courses: the bulk download of \<open>c1\<close> is refused, \<open>c2\<close> yields an
  archive whose payload is wrapped in one folder, \<open>c3\<close> has no files page the account
  can see, \<open>c4\<close> yields bytes that are no archive, \<open>c5\<close> an archive whose second
  member is damaged, and \<open>c6\<close> an archive that holds a single file.
\<close>

definition wrapped_archive :: content where
  "wrapped_archive = Zip [([''D'', ''a''], MFile ''x''), ([''D'', ''b''], MFile ''y'')]"

definition damaged_archive :: content where
  "damaged_archive = Zip [([''a''], MFile ''x''), ([''b''], MDamaged)]"

definition single_file_archive :: content where
  "single_file_archive = Zip [([''f''], MFile ''x'')]"

definition nested_empty_archive :: content where
  "nested_empty_archive = Zip [([''a'', ''b''], MDir), ([''f''], MFile ''x'')]"

definition hidden_entry_archive :: content where
  "hidden_entry_archive = Zip [([''D'', ''.hidden''], MFile ''h''), ([''D'', ''a''], MFile ''x'')]"

definition only_empty_dirs_archive :: content where
  "only_empty_dirs_archive = Zip [([''empty1'', ''empty2''], MDir)]"

definition example_env :: environment where
  "example_env =
     \<lparr>footer_located = (\<lambda>u p t. u = ''alice'' \<and> p = ''secret''),
      parent_folder_id = map_of [(''c1'', ''f1''), (''c2'', ''f2''), (''c4'', ''f4''),
                                 (''c5'', ''f5''), (''c6'', ''f6'')],
      csrf_token = ''tok'',
      session_cookies = [\<lparr>cookie_name = ''sid'', cookie_value = ''42'',
                          cookie_domain = ''studip.uni-passau.de'', cookie_path = ''/''\<rparr>],
      post_response = (\<lambda>rq.
         case map_of [(bulk_url @ ''f2'', wrapped_archive), (bulk_url @ ''f4'', Raw ''junk''),
                      (bulk_url @ ''f5'', damaged_archive), (bulk_url @ ''f6'', single_file_archive)]
                (url rq) of
           None \<Rightarrow> \<lparr>ok = False, raw = Raw []\<rparr>
         | Some c \<Rightarrow> \<lparr>ok = True, raw = c\<rparr>),
      now = (\<lambda>k. \<lparr>year = 2024, month = 3, day = 9, hour = 7, minute = 5, second = k\<rparr>),
      tempdir = [''tmp''],
      temp_names = [''aaa'', ''bbb''],
      cwd = [''home''],
      rsync_installed = True\<rparr>"

definition algebra :: course where
  "algebra = \<lparr>course_id = ''c1'', save_as = ''Algebra'', sync_only = None\<rparr>"

definition logic :: course where
  "logic = \<lparr>course_id = ''c2'', save_as = ''Logic'', sync_only = Some ''sub''\<rparr>"

definition topology :: course where
  "topology = \<lparr>course_id = ''c5'', save_as = ''Topology'', sync_only = None\<rparr>"

definition statistics :: course where
  "statistics = \<lparr>course_id = ''c4'', save_as = ''Statistics'', sync_only = None\<rparr>"

definition physics :: course where
  "physics = \<lparr>course_id = ''c6'', save_as = ''Physics'', sync_only = None\<rparr>"

definition example_config :: config where
  "example_config =
     \<lparr>username = ''alice'', password = ''secret'', target = ''/home/docs'',
      courses = [algebra, logic]\<rparr>"

definition example_self :: studip_sync where
  "example_self =
     \<lparr>workdir = [''tmp'', ''studip-syncaaa''],
      download_dir = [''tmp'', ''studip-syncaaa'', ''zips''],
      extract_dir = [''tmp'', ''studip-syncaaa'', ''extracted''],
      destination_dir = ''/home/docs''\<rparr>"

text \<open>The world before a run, and the world once the orchestrator is constructed.\<close>

definition world_before :: world where
  "world_before =
     \<lparr>filesystem = Dir [(''tmp'', Dir []), (''home'', Dir [])],
      printed = [], browser = [], posted = [], spawned = [], clock_reads = 0\<rparr>"

definition world_ready :: world where
  "world_ready =
     \<lparr>filesystem = Dir [(''tmp'', Dir [(''studip-syncaaa'',
                            Dir [(''zips'', Dir []), (''extracted'', Dir [])])]),
                        (''home'', Dir [(''docs'', Dir [])])],
      printed = [], browser = [], posted = [], spawned = [], clock_reads = 0\<rparr>"

text \<open>
  The world before a run whose target is taken by a file; and two worlds with an
  orchestrator constructed and documents of earlier runs in the target: in the first,
  \<open>Logic/a\<close> differs from what the portal has now, \<open>Logic/b\<close> does not, and
  \<open>Logic/c\<close> is the user's own; in the second, \<open>Logic/a\<close> has a backup that bears the
  suffix of the run that is about to start.
\<close>

definition world_target_taken :: world where
  "world_target_taken =
     \<lparr>filesystem = Dir [(''tmp'', Dir []), (''home'', Dir [(''docs'', File (Raw ''notes''))])],
      printed = [], browser = [], posted = [], spawned = [], clock_reads = 0\<rparr>"

definition world_with_documents :: world where
  "world_with_documents =
     \<lparr>filesystem = Dir [(''tmp'', Dir [(''studip-syncaaa'',
                            Dir [(''zips'', Dir []), (''extracted'', Dir [])])]),
                        (''home'', Dir [(''docs'', Dir [(''Logic'',
                            Dir [(''a'', File (Raw ''old'')), (''b'', File (Raw ''y'')),
                                 (''c'', File (Raw ''mine''))])])])],
      printed = [], browser = [], posted = [], spawned = [], clock_reads = 0\<rparr>"

definition world_with_backup :: world where
  "world_with_backup =
     \<lparr>filesystem = Dir [(''tmp'', Dir [(''studip-syncaaa'',
                            Dir [(''zips'', Dir []), (''extracted'', Dir [])])]),
                        (''home'', Dir [(''docs'', Dir [(''Logic'',
                            Dir [(''a'', File (Raw ''old'')),
                                 (''a_2024-03-09_07+05+00.old'', File (Raw ''older''))])])])],
      printed = [], browser = [], posted = [], spawned = [], clock_reads = 0\<rparr>"

text \<open>A staging area with downloaded archives beside it, for the extractor alone.\<close>

definition example_fs :: node where
  "example_fs =
     Dir [(''zips'', Dir [(''wrapped'', File wrapped_archive),
                          (''damaged'', File damaged_archive),
                          (''single'', File single_file_archive),
                          (''nested'', File nested_empty_archive),
                          (''hidden'', File hidden_entry_archive),
                          (''empties'', File only_empty_dirs_archive),
                          (''junk'', File (Raw ''junk''))]),
          (''extracted'', Dir [])]"

text \<open>
  The state of the run in the world with documents when the loop over the courses has
  ended and the merge is about to start; and an environment whose clock shows another
  time.
\<close>

definition documents_staged :: world where
  "documents_staged =
     snd (sync_session example_env example_config example_self
            (snd (print ''Logging in...'' (snd (RsyncWrapper_init example_env world_with_documents)))))"

definition late_env :: environment where
  "late_env = example_env\<lparr>now := (\<lambda>k.
     \<lparr>year = 987, month = 12, day = 31, hour = 23, minute = 59, second = 58\<rparr>)\<rparr>"

text \<open>The same target, spelt from the working directory \<open>/home\<close>.\<close>

definition relative_config :: config where
  "relative_config = example_config\<lparr>target := ''../home/./docs/''\<rparr>"

definition relative_self :: studip_sync where
  "relative_self = example_self\<lparr>destination_dir := ''../home/./docs/''\<rparr>"

text \<open>
  A run whose temporary directory lies in the target and bears the name that rsync gives
  the backup of the file \<open>Logic\<close>.
\<close>

definition nested_env :: environment where
  "nested_env = example_env\<lparr>tempdir := [''data'', ''Logic_2024-03-09_07+05+00.old'']\<rparr>"

definition nested_config :: config where
  "nested_config = example_config\<lparr>target := ''/data'', courses := [logic]\<rparr>"

definition nested_world :: world where
  "nested_world =
     \<lparr>filesystem = Dir [(''data'', Dir [(''Logic'', File (Raw ''notes'')),
                                        (''Logic_2024-03-09_07+05+00.old'', Dir [])])],
      printed = [], browser = [], posted = [], spawned = [], clock_reads = 0\<rparr>"

definition nested_self :: studip_sync where
  "nested_self =
     \<lparr>workdir = [''data'', ''Logic_2024-03-09_07+05+00.old'', ''studip-syncaaa''],
      download_dir = [''data'', ''Logic_2024-03-09_07+05+00.old'', ''studip-syncaaa'', ''zips''],
      extract_dir = [''data'', ''Logic_2024-03-09_07+05+00.old'', ''studip-syncaaa'', ''extracted''],
      destination_dir = ''/data''\<rparr>"

text \<open>
  The states of the run over the courses \<open>logic\<close>, \<open>physics\<close> and \<open>algebra\<close>: once
  the browser is logged in, once \<open>logic\<close> is done, and when the \<^verbatim>\<open>try\<close> statement
  of \<open>physics\<close> has ended.
\<close>

definition abort_config :: config where
  "abort_config = example_config\<lparr>courses := [logic, physics, algebra]\<rparr>"

definition logged_in :: world where
  "logged_in = snd (Downloader_init example_env (download_dir example_self) ''alice'' ''secret''
                 (snd (print ''Logging in...'' (snd (RsyncWrapper_init example_env world_ready)))))"

definition logic_done :: world where
  "logic_done = snd (sync_loop example_env example_self [logic] logged_in)"

definition physics_raised :: world where
  "physics_raised = snd (attempt example_env example_self physics
                      (snd (print (''Downloading '' @ quoted (save_as physics) @ ''...'') logic_done)))"

text \<open>An archive whose only member is encrypted, downloaded beside an empty staging area.\<close>

definition encrypted_fs :: node where
  "encrypted_fs =
     Dir [(''zips'', Dir [(''enc'', File (Zip [([''s''], MRefused ''RuntimeError'')]))]),
          (''extracted'', Dir [])]"

section \<open>Sequencing and frames\<close>

lemmas prog_defs = pret_def praise_def pbind_def pthen_def pcatch_def pwith_def
  os_call_def os_read_def on_fs_def print_def drive_def

lemmas fs_defs = mkdir_def rmdir_def write_file_def rmtree_def rename_def makedirs_def
  listdir_def hidden_def iglob_star_def shutil_move_def exists_def isdir_def
  makedirs_str_def abspath_def put_def

lemmas extractor_defs = path_str_def ZipFile_def arcname_def extract_member_def extractall_def
  remove_intermediary_dir_def remove_empty_dirs_def extract_body_def Extractor_extract_def

lemmas downloader_defs = login_url_def files_url_def bulk_url_def wait_until_located_def
  login_def Downloader_init_def Downloader_exit_def find_parent_folder_id_def py_or_def
  requests_post_def download_def

lemmas sync_defs = datetime_now_def RsyncWrapper_init_def subprocess_call_def
  process_def rsync_def backed_up_def is_backup_file_def ends_with_def
  RsyncWrapper_sync_def mkdtemp_def StudipSync_init_def quoted_def attempt_def handler_def
  sync_course_def sync_loop_def sync_session_def StudipSync_sync_def cleanup_def
  StudipSync_exit_def run_def

lemmas example_defs = wrapped_archive_def damaged_archive_def single_file_archive_def
  nested_empty_archive_def hidden_entry_archive_def only_empty_dirs_archive_def
  example_env_def algebra_def logic_def topology_def statistics_def physics_def example_config_def
  example_self_def world_before_def world_ready_def example_fs_def
  world_target_taken_def world_with_documents_def world_with_backup_def
  late_env_def relative_config_def relative_self_def
  nested_env_def nested_config_def nested_world_def nested_self_def encrypted_fs_def

text \<open>The timestamp of the example runs, which read the clock once.\<close>

lemma example_timestamp:
  "strftime \<lparr>year = 2024, month = 3, day = 9, hour = 7, minute = 5, second = 0\<rparr>
     = ''2024-03-09_07+05+00''"
  by code_simp

lemma stat_lookup: "lookup fs p = (case stat fs p of Inl e \<Rightarrow> None | Inr n \<Rightarrow> Some n)"
  by (induction fs p rule: lookup.induct) (auto split: option.splits)

lemma stat_Inr: "stat fs p = Inr n \<longleftrightarrow> lookup fs p = Some n"
  by (simp add: stat_lookup split: sum.splits)

lemma stat_Inl: "stat fs p = Inl e \<Longrightarrow> lookup fs p = None"
  by (simp add: stat_lookup)

lemma ZipFile_lookup:
  "ZipFile a fs =
     (case lookup fs a of
        None \<Rightarrow> (Inl (OSError (case stat fs a of Inl e \<Rightarrow> e | Inr _ \<Rightarrow> FileNotFoundError)), fs)
      | Some (Dir _) \<Rightarrow> (Inl (OSError IsADirectoryError), fs)
      | Some (File (Raw _)) \<Rightarrow> (Inl BadZipFile, fs)
      | Some (File (Zip members)) \<Rightarrow> (Inr members, fs))"
  by (simp add: ZipFile_def stat_lookup split: sum.splits)

lemma pbind_Inr:
  "pbind m k s = (Inr b, s'') \<longleftrightarrow> (\<exists>a s'. m s = (Inr a, s') \<and> k a s' = (Inr b, s''))"
  by (auto simp: pbind_def split: prod.splits sum.splits)

lemma pthen_Inr:
  "pthen m k s = (Inr b, s'') \<longleftrightarrow> (\<exists>a s'. m s = (Inr a, s') \<and> k s' = (Inr b, s''))"
  by (simp add: pthen_def pbind_Inr)

lemma preservesD: "preserves f m \<Longrightarrow> m s = (r, s') \<Longrightarrow> f s' = f s"
  by (metis preserves_def snd_conv)

lemma preserves_pret [simp]: "preserves f (pret a)"
  by (simp add: preserves_def pret_def)

lemma preserves_praise [simp]: "preserves f (praise e)"
  by (simp add: preserves_def praise_def)

lemma preserves_pbind:
  "preserves f m \<Longrightarrow> (\<And>a. preserves f (k a)) \<Longrightarrow> preserves f (pbind m k)"
  by (auto simp: preserves_def pbind_def split: prod.splits sum.splits) (metis snd_conv)+

lemma preserves_pthen: "preserves f m \<Longrightarrow> preserves f k \<Longrightarrow> preserves f (pthen m k)"
  by (simp add: pthen_def preserves_pbind)

lemma preserves_pcatch:
  "preserves f m \<Longrightarrow> (\<And>e. preserves f (h e)) \<Longrightarrow> preserves f (pcatch m h)"
  by (auto simp: preserves_def pcatch_def split: prod.splits sum.splits) (metis snd_conv)+

lemma preserves_pwith: "preserves f m \<Longrightarrow> preserves f x \<Longrightarrow> preserves f (pwith m x)"
  by (auto simp: preserves_def pwith_def split: prod.splits sum.splits) (metis snd_conv)+

lemma preserves_pforeach: "(\<And>x. preserves f (body x)) \<Longrightarrow> preserves f (pforeach xs body)"
  by (induction xs) (simp_all add: preserves_pbind)

lemma preserves_if:
  "preserves f a \<Longrightarrow> preserves f b \<Longrightarrow> preserves f (if c then a else b)"
  by simp

lemmas preserves_intros =
  preserves_pbind preserves_pthen preserves_pcatch preserves_pwith preserves_pforeach
  preserves_if

lemma preserves_print [simp]:
  "preserves spawned (print l)" "preserves clock_reads (print l)"
  "preserves filesystem (print l)" "preserves posted (print l)" "preserves browser (print l)"
  by (simp_all add: preserves_def print_def)

lemma preserves_drive [simp]:
  "preserves spawned (drive ev)" "preserves clock_reads (drive ev)"
  "preserves filesystem (drive ev)" "preserves posted (drive ev)" "preserves printed (drive ev)"
  by (simp_all add: preserves_def drive_def)

lemma preserves_on_fs [simp]:
  "preserves spawned (on_fs m)" "preserves clock_reads (on_fs m)"
  "preserves posted (on_fs m)" "preserves printed (on_fs m)" "preserves browser (on_fs m)"
  by (simp_all add: preserves_def on_fs_def split: prod.splits)

lemma preserves_requests_post [simp]:
  "preserves spawned (requests_post env rq)" "preserves clock_reads (requests_post env rq)"
  "preserves filesystem (requests_post env rq)" "preserves printed (requests_post env rq)"
  "preserves browser (requests_post env rq)"
  by (simp_all add: preserves_def requests_post_def)

lemma preserves_find_parent [simp]: "preserves f (find_parent_folder_id env cid)"
  by (simp add: find_parent_folder_id_def split: option.splits)

lemma preserves_wait [simp]:
  "preserves spawned (wait_until_located env u p el t)"
  "preserves clock_reads (wait_until_located env u p el t)"
  "preserves filesystem (wait_until_located env u p el t)"
  "preserves posted (wait_until_located env u p el t)"
  by (simp_all add: wait_until_located_def preserves_pthen)

lemma preserves_login [simp]:
  "preserves spawned (login env u p)" "preserves clock_reads (login env u p)"
  "preserves filesystem (login env u p)" "preserves posted (login env u p)"
  unfolding login_def by (intro preserves_intros; simp)+

lemma preserves_Downloader_init [simp]:
  "preserves spawned (Downloader_init env wd u p)"
  "preserves clock_reads (Downloader_init env wd u p)"
  "preserves filesystem (Downloader_init env wd u p)"
  "preserves posted (Downloader_init env wd u p)"
  unfolding Downloader_init_def by (intro preserves_intros; simp)+

lemma preserves_download [simp]:
  "preserves spawned (download env wd cid only)"
  "preserves clock_reads (download env wd cid only)"
  "preserves printed (download env wd cid only)"
  unfolding download_def Let_def
  by (intro preserves_intros; simp split: exn.splits)+

lemma preserves_handler [simp]:
  "preserves spawned (handler c e)" "preserves clock_reads (handler c e)"
  "preserves filesystem (handler c e)" "preserves posted (handler c e)"
  "preserves browser (handler c e)"
  unfolding handler_def
  by (cases e; simp; intro preserves_intros; simp)+

lemma preserves_sync_course [simp]:
  "preserves spawned (sync_course env self c)"
  "preserves clock_reads (sync_course env self c)"
  unfolding sync_course_def attempt_def
  by (intro preserves_intros; simp)+

lemma preserves_sync_loop [simp]:
  "preserves spawned (sync_loop env self cs)"
  "preserves clock_reads (sync_loop env self cs)"
  unfolding sync_loop_def by (intro preserves_intros; simp)+

lemma preserves_sync_session [simp]:
  "preserves spawned (sync_session env cfg self)"
  "preserves clock_reads (sync_session env cfg self)"
  unfolding sync_session_def Downloader_exit_def by (intro preserves_intros; simp)+

section \<open>Extractor: flattening and pruning\<close>

lemmas ex_eval = prog_defs fs_defs extractor_defs example_defs Let_def

text \<open>
  The two examples of the spec hold on the code. An archive whose only top-level entry
  is the directory \<open>D\<close> with the files \<open>a\<close> and \<open>b\<close> is extracted to \<open>S/a\<close> and
  \<open>S/b\<close>; an archive that holds nothing but \<open>empty1/empty2\<close> leaves no directory
  under \<open>S\<close>, because the flattening step has hoisted \<open>empty2\<close> before the pruning
  step visits it.
\<close>

lemma flattening_example:
  "fst (Extractor_extract [''extracted''] [''zips'', ''wrapped''] ''S'' True example_fs)
     = Inr [''extracted'', ''S'']
   \<and> lookup (snd (Extractor_extract [''extracted''] [''zips'', ''wrapped''] ''S'' True example_fs))
        [''extracted'', ''S'']
     = Some (Dir [(''a'', File (Raw ''x'')), (''b'', File (Raw ''y''))])"
  by (simp add: ex_eval)

lemma only_empty_dirs_example:
  "fst (Extractor_extract [''extracted''] [''zips'', ''empties''] ''S'' True example_fs)
     = Inr [''extracted'', ''S'']
   \<and> lookup (snd (Extractor_extract [''extracted''] [''zips'', ''empties''] ''S'' True example_fs))
        [''extracted'', ''S'']
     = Some (Dir [])"
  by (simp add: ex_eval)

text \<open>
  C1. The pruning is not post-order. For the archive with the directory member \<open>a/b\<close>
  and the file \<open>f\<close> (two top-level entries, so nothing is flattened) the walk lists
  \<open>S\<close>, then \<open>S/a\<close>, which still holds \<open>b\<close>, then removes \<open>S/a/b\<close>; \<open>S/a\<close> is
  not visited again. After \<^verbatim>\<open>extract\<close> has returned, \<open>S/a\<close> is a directory with
  neither files nor subdirectories.
\<close>

theorem remove_empty_dirs_leaves_emptied_parent:
  "fst (Extractor_extract [''extracted''] [''zips'', ''nested''] ''S'' True example_fs)
     = Inr [''extracted'', ''S'']
   \<and> lookup (snd (Extractor_extract [''extracted''] [''zips'', ''nested''] ''S'' True example_fs))
        [''extracted'', ''S'']
     = Some (Dir [(''a'', Dir []), (''f'', File (Raw ''x''))])"
  by (simp add: ex_eval)

text \<open>
  C2. The wrapper is not always emptied. For the archive whose only top-level entry is
  the directory \<open>D\<close> with the entries \<open>.hidden\<close> and \<open>a\<close>, the pattern \<^verbatim>\<open>*\<close>
  yields \<open>a\<close> alone; \<open>a\<close> is hoisted, \<^verbatim>\<open>os.rmdir\<close> finds \<open>D\<close> not empty, and the
  \<^verbatim>\<open>OSError\<close> leaves \<^verbatim>\<open>extract\<close> with \<open>S/D/.hidden\<close> still one level down.
\<close>

theorem remove_intermediary_dir_hidden_entry:
  "fst (Extractor_extract [''extracted''] [''zips'', ''hidden''] ''S'' True example_fs)
     = Inl (OSError DirectoryNotEmpty)
   \<and> lookup (snd (Extractor_extract [''extracted''] [''zips'', ''hidden''] ''S'' True example_fs))
        [''extracted'', ''S'']
     = Some (Dir [(''D'', Dir [(''.hidden'', File (Raw ''h''))]), (''a'', File (Raw ''x''))])"
  by (simp add: ex_eval)

text \<open>
  The code does not test that the single entry is a directory either: for an archive
  that holds one file, \<^verbatim>\<open>os.rmdir\<close> is called on the file.
\<close>

lemma remove_intermediary_dir_single_file:
  "fst (Extractor_extract [''extracted''] [''zips'', ''single''] ''S'' True example_fs)
     = Inl (OSError NotADirectoryError)"
  by (simp add: ex_eval)

section \<open>Extractor: archives that cannot be read\<close>

text \<open>
  C8, as the claim words the message: false for the file \<open>junk\<close>, whose bytes are no
  archive.
\<close>

theorem extraction_error_message_counterexample:
  "fst (Extractor_extract [''extracted''] [''zips'', ''junk''] ''S'' True example_fs)
     \<noteq> Inl (ExtractionError (''cannot extract: '' @ path_str [''zips'', ''junk'']))"
  by (simp add: ex_eval)

text \<open>
  C8, amended. When the file at the archive path is no archive, \<^verbatim>\<open>extract\<close> raises
  \<open>ExtractionError\<close> with the message \<^verbatim>\<open>Cannot extract file: <archive path>\<close> and has
  written nothing: the file system is as it was, so nothing of the file reaches the
  staging tree that is merged. When the file is an archive and reading a member raises
  \<^verbatim>\<open>BadZipFile\<close>, the same \<open>ExtractionError\<close> is raised.
\<close>

theorem bad_archive_raises_ExtractionError:
  "(lookup fs a = Some (File (Raw s)) \<longrightarrow>
      Extractor_extract b a n cl fs
        = (Inl (ExtractionError (''Cannot extract file: '' @ path_str a)), fs))
   \<and> (lookup fs a = Some (File (Zip ms)) \<and> fst (extractall ms (b @ [n]) fs) = Inl BadZipFile \<longrightarrow>
      fst (Extractor_extract b a n cl fs)
        = Inl (ExtractionError (''Cannot extract file: '' @ path_str a)))"
  by (auto simp: Extractor_extract_def extract_body_def ZipFile_lookup prog_defs Let_def
           split: prod.splits sum.splits)

theorem bad_archive_raises_ExtractionError_witness:
  "Extractor_extract [''extracted''] [''zips'', ''junk''] ''S'' True example_fs
     = (Inl (ExtractionError ''Cannot extract file: /zips/junk''), example_fs)
   \<and> fst (Extractor_extract [''extracted''] [''zips'', ''damaged''] ''S'' True example_fs)
     = Inl (ExtractionError ''Cannot extract file: /zips/damaged'')"
proof -
  have j: "lookup example_fs [''zips'', ''junk''] = Some (File (Raw ''junk''))"
    by (simp add: example_fs_def)
  have d: "lookup example_fs [''zips'', ''damaged'']
             = Some (File (Zip [([''a''], MFile ''x''), ([''b''], MDamaged)]))
           \<and> fst (extractall [([''a''], MFile ''x''), ([''b''], MDamaged)]
                    ([''extracted''] @ [''S'']) example_fs) = Inl BadZipFile"
    by (simp add: ex_eval)
  from bad_archive_raises_ExtractionError [of example_fs "[''zips'', ''junk'']" "''junk''"
        "[''extracted'']" "''S''" True]
    bad_archive_raises_ExtractionError [of example_fs "[''zips'', ''damaged'']" _
        "[''extracted'']" "''S''" True "[([''a''], MFile ''x''), ([''b''], MDamaged)]"] j d
  show ?thesis by (simp add: path_str_def)
qed

section \<open>Login\<close>

lemmas run_eval = prog_defs fs_defs extractor_defs downloader_defs sync_defs example_defs Let_def

text \<open>
  C5. The login types the credentials into the form once, submits them and waits with a
  timeout of 7 for the element \<^verbatim>\<open>footer\<close>. When the wait does not find it, the lines
  \<^verbatim>\<open>Login failed!\<close> and \<^verbatim>\<open>Aborting\<close> are printed, the browser is quit and
  \<^verbatim>\<open>exit(1)\<close> ends \<^verbatim>\<open>sync\<close>: no second attempt is made, no course is requested,
  nothing is written and no merge is started. (The code has no exception class of its
  own for this; the fatal error is the \<open>SystemExit\<close> of \<^verbatim>\<open>exit(1)\<close>.) When the wait
  finds the element, the construction of the downloader returns.
\<close>

theorem login_failure_is_fatal:
  "(\<not> footer_located env (username cfg) (password cfg) 7 \<longrightarrow>
      StudipSync_sync env cfg self w =
        (Inl (SystemExit 1),
         w\<lparr>clock_reads := Suc (clock_reads w),
           printed := printed w @ [''Logging in...'', ''Login failed!'', ''Aborting''],
           browser := browser w @
             [Start, ImplicitlyWait 10, Get login_url,
              Clear ''username'', SendKeys ''username'' (username cfg),
              Clear ''password'', SendKeys ''password'' (password cfg), SendEnter ''password'',
              WaitFor ''footer'' 7, Quit]\<rparr>))
   \<and> (footer_located env (username cfg) (password cfg) 7 \<longrightarrow>
      fst (Downloader_init env (download_dir self) (username cfg) (password cfg) w)
        = Inr (download_dir self))"
  by (simp add: StudipSync_sync_def sync_session_def Downloader_init_def login_def
        wait_until_located_def RsyncWrapper_init_def datetime_now_def prog_defs Let_def)

theorem login_failure_is_fatal_witness:
  "StudipSync_sync example_env (example_config\<lparr>password := ''wrong''\<rparr>) example_self world_ready =
        (Inl (SystemExit 1),
         world_ready\<lparr>clock_reads := 1,
           printed := [''Logging in...'', ''Login failed!'', ''Aborting''],
           browser :=
             [Start, ImplicitlyWait 10, Get login_url,
              Clear ''username'', SendKeys ''username'' ''alice'',
              Clear ''password'', SendKeys ''password'' ''wrong'', SendEnter ''password'',
              WaitFor ''footer'' 7, Quit]\<rparr>)
   \<and> fst (Downloader_init example_env (download_dir example_self) ''alice'' ''secret'' world_ready)
        = Inr (download_dir example_self)"
  using login_failure_is_fatal [of example_env "example_config\<lparr>password := ''wrong''\<rparr>" example_self world_ready]
    login_failure_is_fatal [of example_env example_config example_self world_ready]
  by (simp add: example_env_def example_config_def world_ready_def)

section \<open>Exceptions that are not caught\<close>

lemma pbind_Inl:
  "pbind m k s = (Inl e, s'') \<longleftrightarrow>
     m s = (Inl e, s'') \<or> (\<exists>a s'. m s = (Inr a, s') \<and> k a s' = (Inl e, s''))"
  by (auto simp: pbind_def split: prod.splits sum.splits)

lemma pthen_Inl:
  "pthen m k s = (Inl e, s'') \<longleftrightarrow>
     m s = (Inl e, s'') \<or> (\<exists>a s'. m s = (Inr a, s') \<and> k s' = (Inl e, s''))"
  by (simp add: pthen_def pbind_Inl)

lemma preserves_RsyncWrapper_init [simp]: "preserves spawned (RsyncWrapper_init env)"
  by (simp add: preserves_def RsyncWrapper_init_def datetime_now_def pbind_def pret_def Let_def)

lemma sync_raises_spawns_nothing:
  assumes "StudipSync_sync env cfg self w = (Inl e, w')"
  shows "spawned w' = spawned w"
proof -
  have last: "\<And>sfx s d v v'. RsyncWrapper_sync env sfx s d v = (Inl e, v') \<Longrightarrow> spawned v' = spawned v"
    by (auto simp: RsyncWrapper_sync_def subprocess_call_def split: if_splits)
  from assms show ?thesis
    unfolding StudipSync_sync_def
    apply (auto simp: pbind_Inl pthen_Inl)
    apply (auto dest!: preservesD [OF preserves_RsyncWrapper_init] preservesD [OF preserves_print(1)]
      preservesD [OF preserves_sync_session(1)] last)
    done
qed

lemma sync_loop_append:
  "sync_loop env self pre w = (Inr (), w1) \<Longrightarrow>
     sync_loop env self (pre @ cs) w = sync_loop env self cs w1"
proof (induction pre arbitrary: w)
  case Nil
  then show ?case by (simp add: sync_loop_def pret_def)
next
  case (Cons c pre)
  from Cons.prems obtain w0 where c: "sync_course env self c w = (Inr (), w0)"
    and rest: "sync_loop env self pre w0 = (Inr (), w1)"
    by (auto simp: sync_loop_def pbind_Inr)
  from Cons.IH [OF rest] c show ?case
    by (simp add: sync_loop_def pbind_def)
qed

lemma uncaught_exception_leaves_the_loop:
  assumes "sync_loop env self pre w = (Inr (), w1)"
    and "attempt env self c (snd (print (''Downloading '' @ quoted (save_as c) @ ''...'') w1)) = (Inl e, w2)"
    and "\<not> caught_by_loop e"
  shows "sync_loop env self (pre @ c # post) w = (Inl e, w2)"
proof -
  from assms(2,3) have "sync_loop env self (c # post) w1 = (Inl e, w2)"
    by (cases e) (simp_all add: sync_loop_def sync_course_def handler_def prog_defs)
  with sync_loop_append [OF assms(1)] show ?thesis by simp
qed

lemma uncaught_exception_leaves_sync:
  assumes "Downloader_init env (download_dir self) (username cfg) (password cfg)
             (snd (print ''Logging in...'' (snd (RsyncWrapper_init env w0)))) = (Inr d, w)"
    and "sync_loop env self (courses cfg) w = (Inl e, w2)"
  shows "StudipSync_sync env cfg self w0 = (Inl e, w2\<lparr>browser := browser w2 @ [Close]\<rparr>)"
    and "spawned w2 = spawned w0"
proof -
  obtain sfx wa where i: "RsyncWrapper_init env w0 = (Inr sfx, wa)"
    by (simp add: RsyncWrapper_init_def datetime_now_def pbind_def pret_def Let_def)
  obtain wb where p: "print ''Logging in...'' wa = (Inr (), wb)"
    by (simp add: print_def)
  from assms(1) i p have d: "Downloader_init env (download_dir self) (username cfg) (password cfg) wb
                               = (Inr d, w)" by simp
  with assms(2) have "sync_session env cfg self wb = (Inl e, w2\<lparr>browser := browser w2 @ [Close]\<rparr>)"
    by (simp add: sync_session_def Downloader_exit_def pbind_def pwith_def drive_def)
  with i p show "StudipSync_sync env cfg self w0 = (Inl e, w2\<lparr>browser := browser w2 @ [Close]\<rparr>)"
    by (simp add: StudipSync_sync_def pbind_def pthen_def)
  from preservesD [OF preserves_RsyncWrapper_init i] preservesD [OF preserves_print(1) p]
    preservesD [OF preserves_Downloader_init(1) d] preservesD [OF preserves_sync_loop(1) assms(2)]
  show "spawned w2 = spawned w0" by simp
qed

text \<open>
  C10. \<^verbatim>\<open>extract\<close> hands on unchanged every exception but \<^verbatim>\<open>BadZipFile\<close>; when
  the archive path names no file, that exception is the error of the kernel for the path
  (\<^verbatim>\<open>FileNotFoundError\<close> for a missing component, \<^verbatim>\<open>NotADirectoryError\<close> for a file
  on the way), and nothing is written. When the courses \<open>pre\<close> have been done and the
  \<^verbatim>\<open>try\<close> statement of the next course \<open>c\<close> raises an exception that is neither
  \<open>DownloadError\<close> nor \<open>ExtractionError\<close>, the loop over \<open>pre\<close>, \<open>c\<close> and the
  courses \<open>post\<close> ends with that exception in the state in which \<open>c\<close> raised it: no
  course of \<open>post\<close> is attempted. When the loop over the configured courses ends with
  an exception, \<^verbatim>\<open>sync\<close> ends with the same exception in the state the loop left,
  but for the browser, which the \<^verbatim>\<open>with\<close> statement closes: nothing is printed or
  written after the loop and no process is started, so the merge is skipped. No
  \<^verbatim>\<open>sync\<close> that raises has started a process.
\<close>

theorem uncaught_exceptions_abort_the_run:
  "(extract_body b a n cl fs = (Inl e, fs') \<and> e \<noteq> BadZipFile \<longrightarrow>
      Extractor_extract b a n cl fs = (Inl e, fs'))
   \<and> (stat fs a = Inl oe \<longrightarrow>
      Extractor_extract b a n cl fs = (Inl (OSError oe), fs))
   \<and> (sync_loop env self pre w = (Inr (), w1)
        \<and> attempt env self c (snd (print (''Downloading '' @ quoted (save_as c) @ ''...'') w1)) = (Inl e, w2)
        \<and> \<not> caught_by_loop e \<longrightarrow>
      sync_loop env self (pre @ c # post) w = (Inl e, w2))
   \<and> (Downloader_init env (download_dir self) (username cfg) (password cfg)
          (snd (print ''Logging in...'' (snd (RsyncWrapper_init env w0)))) = (Inr d, w)
        \<and> sync_loop env self (courses cfg) w = (Inl e, w2) \<longrightarrow>
      StudipSync_sync env cfg self w0 = (Inl e, w2\<lparr>browser := browser w2 @ [Close]\<rparr>)
      \<and> spawned w2 = spawned w0)
   \<and> (fst (StudipSync_sync env cfg self w0) = Inl e \<longrightarrow>
      spawned (snd (StudipSync_sync env cfg self w0)) = spawned w0)"
proof (intro conjI impI)
  assume "extract_body b a n cl fs = (Inl e, fs') \<and> e \<noteq> BadZipFile"
  then show "Extractor_extract b a n cl fs = (Inl e, fs')"
    by (cases e) (simp_all add: Extractor_extract_def pcatch_def praise_def)
next
  assume "stat fs a = Inl oe"
  then show "Extractor_extract b a n cl fs = (Inl (OSError oe), fs)"
    by (simp add: Extractor_extract_def extract_body_def ZipFile_def pcatch_def praise_def pbind_def)
next
  assume "sync_loop env self pre w = (Inr (), w1)
        \<and> attempt env self c (snd (print (''Downloading '' @ quoted (save_as c) @ ''...'') w1)) = (Inl e, w2)
        \<and> \<not> caught_by_loop e"
  then show "sync_loop env self (pre @ c # post) w = (Inl e, w2)"
    using uncaught_exception_leaves_the_loop by blast
next
  assume a: "Downloader_init env (download_dir self) (username cfg) (password cfg)
          (snd (print ''Logging in...'' (snd (RsyncWrapper_init env w0)))) = (Inr d, w)
        \<and> sync_loop env self (courses cfg) w = (Inl e, w2)"
  then show "StudipSync_sync env cfg self w0 = (Inl e, w2\<lparr>browser := browser w2 @ [Close]\<rparr>)"
    using uncaught_exception_leaves_sync(1) by blast
  from a show "spawned w2 = spawned w0"
    using uncaught_exception_leaves_sync(2) by blast
next
  assume "fst (StudipSync_sync env cfg self w0) = Inl e"
  then have "StudipSync_sync env cfg self w0 = (Inl e, snd (StudipSync_sync env cfg self w0))"
    by (simp add: prod_eq_iff)
  then show "spawned (snd (StudipSync_sync env cfg self w0)) = spawned w0"
    by (rule sync_raises_spawns_nothing)
qed

lemma example_abort_steps:
  "Downloader_init example_env (download_dir example_self) (username abort_config) (password abort_config)
     (snd (print ''Logging in...'' (snd (RsyncWrapper_init example_env world_ready))))
     = (Inr (download_dir example_self), logged_in)"
  "sync_loop example_env example_self [logic] logged_in = (Inr (), logic_done)"
  "attempt example_env example_self physics
     (snd (print (''Downloading '' @ quoted (save_as physics) @ ''...'') logic_done))
     = (Inl (OSError NotADirectoryError), physics_raised)"
  unfolding physics_raised_def logic_done_def logged_in_def abort_config_def
  by (simp_all add: run_eval prod_eq_iff)

lemma example_abort_state:
  "printed physics_raised = [''Logging in...'', ''Downloading '' @ quoted ''Logic'' @ ''...'',
      ''Downloading '' @ quoted ''Physics'' @ ''...'']"
  "filesystem (physics_raised\<lparr>browser := browser physics_raised @ [Close]\<rparr>) =
     Dir [(''tmp'', Dir [(''studip-syncaaa'',
             Dir [(''zips'', Dir [(''c2'', File wrapped_archive), (''c6'', File single_file_archive)]),
                  (''extracted'', Dir [(''Logic'', Dir [(''a'', File (Raw ''x'')), (''b'', File (Raw ''y''))]),
                                       (''Physics'', Dir [(''f'', File (Raw ''x''))])])])]),
          (''home'', Dir [(''docs'', Dir [])])]"
  "courses abort_config = [logic] @ physics # [algebra]"
  "spawned world_ready = []"
  "stat example_fs [''zips'', ''missing''] = Inl FileNotFoundError"
  "stat example_fs [''zips'', ''junk'', ''x''] = Inl NotADirectoryError"
  "extract_body [''extracted''] [''zips'', ''enc''] ''S'' True encrypted_fs
     = (Inl (OtherException ''RuntimeError''),
        Dir [(''zips'', Dir [(''enc'', File (Zip [([''s''], MRefused ''RuntimeError'')]))]),
             (''extracted'', Dir [(''S'', Dir [])])])"
  unfolding physics_raised_def logic_done_def logged_in_def abort_config_def
  by (simp_all add: run_eval)

text \<open>
  The \<^verbatim>\<open>RuntimeError\<close> of an encrypted member and the errors of the kernel for an
  archive path leave \<^verbatim>\<open>extract\<close> as they are. In the run over the courses \<open>logic\<close>,
  \<open>physics\<close> and \<open>algebra\<close>, \<open>logic\<close> is staged, the extraction of \<open>physics\<close>
  raises \<^verbatim>\<open>NotADirectoryError\<close>, \<open>algebra\<close> is not attempted, and the destination
  is as it was.
\<close>

theorem uncaught_exceptions_abort_the_run_witness:
  "Extractor_extract [''extracted''] [''zips'', ''enc''] ''S'' True encrypted_fs
     = (Inl (OtherException ''RuntimeError''),
        Dir [(''zips'', Dir [(''enc'', File (Zip [([''s''], MRefused ''RuntimeError'')]))]),
             (''extracted'', Dir [(''S'', Dir [])])])
   \<and> Extractor_extract [''extracted''] [''zips'', ''missing''] ''S'' True example_fs
     = (Inl (OSError FileNotFoundError), example_fs)
   \<and> Extractor_extract [''extracted''] [''zips'', ''junk'', ''x''] ''S'' True example_fs
     = (Inl (OSError NotADirectoryError), example_fs)
   \<and> fst (sync_loop example_env example_self [logic, physics, algebra] logged_in)
     = Inl (OSError NotADirectoryError)
   \<and> fst (StudipSync_sync example_env abort_config example_self world_ready)
     = Inl (OSError NotADirectoryError)
   \<and> printed (snd (StudipSync_sync example_env abort_config example_self world_ready))
     = [''Logging in...'', ''Downloading '' @ quoted ''Logic'' @ ''...'',
        ''Downloading '' @ quoted ''Physics'' @ ''...'']
   \<and> lookup (filesystem (snd (StudipSync_sync example_env abort_config example_self world_ready)))
        [''home'', ''docs''] = Some (Dir [])
   \<and> spawned (snd (StudipSync_sync example_env abort_config example_self world_ready)) = []"
proof -
  note s = example_abort_steps
  note t = example_abort_state
  from uncaught_exceptions_abort_the_run [where b = "[''extracted'']"
      and a = "[''zips'', ''missing'']" and n = "''S''" and cl = True and fs = example_fs
      and oe = FileNotFoundError]
  have 1: "Extractor_extract [''extracted''] [''zips'', ''missing''] ''S'' True example_fs
     = (Inl (OSError FileNotFoundError), example_fs)"
    using t(5) by blast
  from uncaught_exceptions_abort_the_run [where b = "[''extracted'']"
      and a = "[''zips'', ''enc'']" and n = "''S''" and cl = True and fs = encrypted_fs
      and e = "OtherException ''RuntimeError''"
      and fs' = "Dir [(''zips'', Dir [(''enc'', File (Zip [([''s''], MRefused ''RuntimeError'')]))]),
                      (''extracted'', Dir [(''S'', Dir [])])]"]
  have 0: "Extractor_extract [''extracted''] [''zips'', ''enc''] ''S'' True encrypted_fs
     = (Inl (OtherException ''RuntimeError''),
        Dir [(''zips'', Dir [(''enc'', File (Zip [([''s''], MRefused ''RuntimeError'')]))]),
             (''extracted'', Dir [(''S'', Dir [])])])"
    using t(7) by simp
  from uncaught_exceptions_abort_the_run [where b = "[''extracted'']"
      and a = "[''zips'', ''junk'', ''x'']" and n = "''S''" and cl = True and fs = example_fs
      and oe = NotADirectoryError]
  have 2: "Extractor_extract [''extracted''] [''zips'', ''junk'', ''x''] ''S'' True example_fs
     = (Inl (OSError NotADirectoryError), example_fs)"
    using t(6) by blast
  from uncaught_exceptions_abort_the_run [where env = example_env and self = example_self
      and pre = "[logic]" and c = physics and post = "[algebra]" and w = logged_in
      and ?w1.0 = logic_done and ?w2.0 = physics_raised and e = "OSError NotADirectoryError"
      and cfg = abort_config and ?w0.0 = world_ready and d = "download_dir example_self"]
    s t(3)
  have 3: "sync_loop example_env example_self ([logic] @ physics # [algebra]) logged_in
             = (Inl (OSError NotADirectoryError), physics_raised)"
    and 4: "StudipSync_sync example_env abort_config example_self world_ready
             = (Inl (OSError NotADirectoryError),
                physics_raised\<lparr>browser := browser physics_raised @ [Close]\<rparr>)"
    and 5: "spawned physics_raised = spawned world_ready"
    by simp_all
  from 0 1 2 3 4 5 t(1,4) t(2) show ?thesis
    by (simp del: world.simps)
qed

section \<open>Facts about the file system calls\<close>

lemma lookup_Dir_single [simp]: "lookup (Dir es) [x] = map_of es x"
  by (simp split: option.splits)

lemma alter_result:
  "alter f p fs = Inr fs' \<Longrightarrow> f (lookup fs p) = Inr (lookup fs' p)"
proof (induction f p fs arbitrary: fs' rule: alter.induct)
  case (3 f x es)
  then show ?case
    by (auto simp: update_conv' delete_conv' split: sum.splits option.splits)
next
  case (4 f x y p es)
  then show ?case
    by (auto simp: update_conv' split: sum.splits option.splits)
qed simp_all

lemma alter_error_at_entry:
  "alter f p fs = Inl e \<Longrightarrow> lookup fs p = Some n \<Longrightarrow> p \<noteq> [] \<Longrightarrow> f (Some n) = Inl e"
proof (induction f p fs arbitrary: n rule: alter.induct)
  case (3 f x es)
  then show ?case by (auto split: sum.splits option.splits)
next
  case (4 f x y p es)
  then show ?case by (auto split: sum.splits option.splits)
qed simp_all

lemma lookup_append:
  "lookup fs p = Some n \<Longrightarrow> lookup fs (p @ q) = lookup n q"
  by (induction fs p rule: lookup.induct) (auto split: option.splits)

lemma alter_Cons_Cons:
  "p \<noteq> [] \<Longrightarrow> alter f (x # p) (Dir es) =
     (case map_of es x of
        None \<Rightarrow> Inl FileNotFoundError
      | Some c \<Rightarrow> (case alter f p c of Inl e \<Rightarrow> Inl e | Inr c' \<Rightarrow> Inr (Dir (AList.update x c' es))))"
  by (cases p) (auto split: option.splits)

lemma alter_succeeds:
  "lookup fs wd = Some (Dir es) \<Longrightarrow> f (map_of es x) = Inr r \<Longrightarrow> \<exists>fs'. alter f (wd @ [x]) fs = Inr fs'"
proof (induction wd arbitrary: fs)
  case Nil
  then show ?case by (auto split: option.splits)
next
  case (Cons z wd)
  then obtain es0 c where fs: "fs = Dir es0" and c: "map_of es0 z = Some c" "lookup c wd = Some (Dir es)"
    by (cases fs) (auto split: option.splits)
  from Cons.IH [OF c(2) Cons.prems(2)] obtain c' where "alter f (wd @ [x]) c = Inr c'" by blast
  then show ?case using fs c by (simp add: alter_Cons_Cons)
qed

lemma alter_frame_here:
  "alter f (x # p) fs = Inr fs' \<Longrightarrow> x \<noteq> y \<Longrightarrow> lookup fs' (y # r) = lookup fs (y # r)"
proof (cases fs)
  case (File c)
  assume "alter f (x # p) fs = Inr fs'"
  with File show ?thesis by simp
next
  case (Dir es)
  assume a: "alter f (x # p) fs = Inr fs'" and ne: "x \<noteq> y"
  show ?thesis
  proof (cases p)
    case Nil
    with a Dir ne show ?thesis
      by (auto simp: update_conv' delete_conv' split: sum.splits option.splits)
  next
    case (Cons z q)
    with a Dir ne show ?thesis
      by (auto simp: update_conv' split: sum.splits option.splits)
  qed
qed

lemma alter_frame:
  "alter f (q @ x # p) fs = Inr fs' \<Longrightarrow> x \<noteq> y \<Longrightarrow> lookup fs' (q @ y # r) = lookup fs (q @ y # r)"
proof (induction q arbitrary: fs fs')
  case Nil
  then show ?case using alter_frame_here [of f x p fs fs' y r] by simp
next
  case (Cons z q)
  from Cons.prems(1) obtain es where fs: "fs = Dir es" by (cases fs) auto
  from Cons.prems(1) fs obtain c c' where c: "map_of es z = Some c" "alter f (q @ x # p) c = Inr c'"
    "fs' = Dir (AList.update z c' es)"
    by (auto simp: alter_Cons_Cons split: option.splits sum.splits)
  from Cons.IH [OF c(2) Cons.prems(2)] show ?case
    using fs c by (simp add: update_conv')
qed

lemma write_file_result: "write_file p c fs = Inr fs' \<Longrightarrow> lookup fs' p = Some (File c)"
  unfolding write_file_def by (drule alter_result) (auto split: option.splits node.splits)

lemma write_file_succeeds:
  assumes "isdir fs wd" "\<not> isdir fs (wd @ [x])"
  shows "\<exists>fs'. write_file (wd @ [x]) c fs = Inr fs'"
proof -
  from assms(1) obtain es where es: "lookup fs wd = Some (Dir es)"
    by (auto simp: isdir_def split: option.splits node.splits)
  with assms(2) have "\<not> (\<exists>d. map_of es x = Some (Dir d))"
    by (auto simp: isdir_def lookup_append split: option.splits node.splits)
  then have "(case map_of es x of Some (Dir _) \<Rightarrow> Inl IsADirectoryError | _ \<Rightarrow> Inr (Some (File c)))
               = Inr (Some (File c))"
    by (auto split: option.splits node.splits)
  from alter_succeeds [where f = "\<lambda>entry. case entry of Some (Dir _) \<Rightarrow> Inl IsADirectoryError
                                        | _ \<Rightarrow> Inr (Some (File c))", OF es this]
  show ?thesis by (simp add: write_file_def)
qed

lemma rmtree_removes: "rmtree p fs = Inr fs' \<Longrightarrow> lookup fs' p = None"
  unfolding rmtree_def by (drule alter_result) (auto split: option.splits node.splits)

lemma rmtree_fails: "rmtree p fs = Inl e \<Longrightarrow> p \<noteq> [] \<Longrightarrow> \<not> isdir fs p"
  unfolding rmtree_def isdir_def
  by (auto split: option.splits node.splits dest: alter_error_at_entry)

section \<open>Downloader: the bulk download\<close>

lemma bulk_request_py_or:
  "\<lparr>url = bulk_url @ fid, params = [(''cid'', cid)],
    data = [(''security_token'', csrf_token env), (''ids[]'', py_or only fid), (''download'', ''1'')],
    cookies = session_cookies env\<rparr> = bulk_request env cid only fid"
  by (simp add: bulk_request_def py_or_def)

lemma download_unfolded:
  "download env wd cid only w =
     (case parent_folder_id env cid of
        None \<Rightarrow> (Inl (DownloadError (''Could not locate parent folder for course: '' @ cid)),
                 w\<lparr>browser := browser w @ [Get (files_url @ cid)]\<rparr>)
      | Some fid \<Rightarrow>
          (let w' = w\<lparr>browser := browser w @ [Get (files_url @ cid),
                        ExecuteScript ''return STUDIP.CSRF_TOKEN.value'', GetCookies],
                      posted := posted w @ [bulk_request env cid only fid]\<rparr>;
               r = post_response env (bulk_request env cid only fid)
           in if \<not> ok r then (Inl (DownloadError (''Download failed '' @ bulk_url @ fid)), w')
              else (case write_file (wd @ [cid]) (raw r) (filesystem w) of
                      Inl e \<Rightarrow> (Inl (OSError e), w')
                    | Inr fs' \<Rightarrow> (Inr (wd @ [cid]), w'\<lparr>filesystem := fs'\<rparr>))))"
  by (simp add: download_def find_parent_folder_id_def requests_post_def prog_defs Let_def
        bulk_request_py_or split: option.splits sum.splits)

text \<open>
  C7. \<^verbatim>\<open>download(course_id, sync_only)\<close> looks the root folder of the course up first and
  raises \<open>DownloadError\<close> when the files page has no such element. Otherwise it posts
  one request to the bulk endpoint of the root folder, whose \<^verbatim>\<open>ids[]\<close> field is
  \<open>sync_only\<close> when that is given (a non-empty string) and the root folder otherwise,
  with the CSRF token and the cookies of the browser session. A response that is no
  success raises \<open>DownloadError\<close> and writes nothing. On success, when the download
  directory exists and the target is not a directory, the body of the response is the
  content of the file named by the course id in the download directory, and the path of
  that file is returned.
\<close>

theorem download_contract:
  "(parent_folder_id env cid = None \<longrightarrow>
      download env wd cid only w =
        (Inl (DownloadError (''Could not locate parent folder for course: '' @ cid)),
         w\<lparr>browser := browser w @ [Get (files_url @ cid)]\<rparr>))
   \<and> (parent_folder_id env cid = Some fid \<longrightarrow>
      (let rq = \<lparr>url = bulk_url @ fid, params = [(''cid'', cid)],
                 data = [(''security_token'', csrf_token env),
                         (''ids[]'', case only of None \<Rightarrow> fid
                                     | Some v \<Rightarrow> if v = [] then fid else v),
                         (''download'', ''1'')],
                 cookies = session_cookies env\<rparr>;
           r = post_response env rq;
           res = download env wd cid only w
       in posted (snd res) = posted w @ [rq]
          \<and> (\<not> ok r \<longrightarrow>
                fst res = Inl (DownloadError (''Download failed '' @ bulk_url @ fid))
                \<and> filesystem (snd res) = filesystem w)
          \<and> (ok r \<and> isdir (filesystem w) wd \<and> \<not> isdir (filesystem w) (wd @ [cid]) \<longrightarrow>
                fst res = Inr (wd @ [cid])
                \<and> lookup (filesystem (snd res)) (wd @ [cid]) = Some (File (raw r)))))"
proof (intro conjI impI)
  assume "parent_folder_id env cid = None"
  then show "download env wd cid only w =
        (Inl (DownloadError (''Could not locate parent folder for course: '' @ cid)),
         w\<lparr>browser := browser w @ [Get (files_url @ cid)]\<rparr>)"
    by (simp add: download_unfolded)
next
  assume fid: "parent_folder_id env cid = Some fid"
  let ?rq = "bulk_request env cid only fid"
  let ?r = "post_response env ?rq"
  let ?res = "download env wd cid only w"
  have posted: "posted (snd ?res) = posted w @ [?rq]"
    using fid by (simp add: download_unfolded Let_def split: sum.splits)
  have refused: "\<not> ok ?r \<Longrightarrow>
      fst ?res = Inl (DownloadError (''Download failed '' @ bulk_url @ fid))
      \<and> filesystem (snd ?res) = filesystem w"
    using fid by (simp add: download_unfolded Let_def)
  have stored: "fst ?res = Inr (wd @ [cid])
      \<and> lookup (filesystem (snd ?res)) (wd @ [cid]) = Some (File (raw ?r))"
    if "ok ?r" "isdir (filesystem w) wd" "\<not> isdir (filesystem w) (wd @ [cid])"
  proof -
    from write_file_succeeds [OF that(2,3)] obtain fs'
      where w: "write_file (wd @ [cid]) (raw ?r) (filesystem w) = Inr fs'" by blast
    from write_file_result [OF w] w fid that(1) show ?thesis
      by (simp add: download_unfolded Let_def)
  qed
  from posted refused stored
  show "let rq = \<lparr>url = bulk_url @ fid, params = [(''cid'', cid)],
                 data = [(''security_token'', csrf_token env),
                         (''ids[]'', case only of None \<Rightarrow> fid
                                     | Some v \<Rightarrow> if v = [] then fid else v),
                         (''download'', ''1'')],
                 cookies = session_cookies env\<rparr>;
           r = post_response env rq;
           res = download env wd cid only w
       in posted (snd res) = posted w @ [rq]
          \<and> (\<not> ok r \<longrightarrow>
                fst res = Inl (DownloadError (''Download failed '' @ bulk_url @ fid))
                \<and> filesystem (snd res) = filesystem w)
          \<and> (ok r \<and> isdir (filesystem w) wd \<and> \<not> isdir (filesystem w) (wd @ [cid]) \<longrightarrow>
                fst res = Inr (wd @ [cid])
                \<and> lookup (filesystem (snd res)) (wd @ [cid]) = Some (File (raw r)))"
    unfolding Let_def bulk_request_def [symmetric] by blast
qed

theorem download_contract_witness:
  "download example_env [''tmp'', ''studip-syncaaa'', ''zips''] ''c3'' None world_ready =
     (Inl (DownloadError ''Could not locate parent folder for course: c3''),
      world_ready\<lparr>browser := [Get (files_url @ ''c3'')]\<rparr>)
   \<and> posted (snd (download example_env [''tmp'', ''studip-syncaaa'', ''zips''] ''c2'' (Some ''sub'')
                world_ready))
       = [\<lparr>url = bulk_url @ ''f2'', params = [(''cid'', ''c2'')],
           data = [(''security_token'', ''tok''), (''ids[]'', ''sub''), (''download'', ''1'')],
           cookies = [\<lparr>cookie_name = ''sid'', cookie_value = ''42'',
                       cookie_domain = ''studip.uni-passau.de'', cookie_path = ''/''\<rparr>]\<rparr>]
   \<and> fst (download example_env [''tmp'', ''studip-syncaaa'', ''zips''] ''c2'' (Some ''sub'') world_ready)
       = Inr [''tmp'', ''studip-syncaaa'', ''zips'', ''c2'']
   \<and> lookup (filesystem (snd (download example_env [''tmp'', ''studip-syncaaa'', ''zips''] ''c2''
                (Some ''sub'') world_ready))) [''tmp'', ''studip-syncaaa'', ''zips'', ''c2'']
       = Some (File wrapped_archive)"
proof -
  have a: "parent_folder_id example_env ''c3'' = None"
    "parent_folder_id example_env ''c2'' = Some ''f2''"
    by (simp_all add: example_env_def)
  have b: "post_response example_env
             \<lparr>url = bulk_url @ ''f2'', params = [(''cid'', ''c2'')],
              data = [(''security_token'', csrf_token example_env), (''ids[]'', ''sub''),
                      (''download'', ''1'')],
              cookies = session_cookies example_env\<rparr> = \<lparr>ok = True, raw = wrapped_archive\<rparr>"
    by (simp add: example_env_def)
  have c: "isdir (filesystem world_ready) [''tmp'', ''studip-syncaaa'', ''zips'']"
    "\<not> isdir (filesystem world_ready) ([''tmp'', ''studip-syncaaa'', ''zips''] @ [''c2''])"
    by (simp_all add: world_ready_def isdir_def)
  have d: "csrf_token example_env = ''tok''"
    "session_cookies example_env = [\<lparr>cookie_name = ''sid'', cookie_value = ''42'',
                       cookie_domain = ''studip.uni-passau.de'', cookie_path = ''/''\<rparr>]"
    "posted world_ready = []" "browser world_ready = []"
    by (simp_all add: example_env_def world_ready_def)
  from download_contract [of example_env "''c3''" "[''tmp'', ''studip-syncaaa'', ''zips'']" None
      world_ready "''f2''"]
    download_contract [of example_env "''c2''" "[''tmp'', ''studip-syncaaa'', ''zips'']" "Some ''sub''"
      world_ready "''f2''"] a b c
  show ?thesis by (simp add: Let_def d)
qed

section \<open>The merge step\<close>

lemma ends_with_append [simp]: "ends_with suffix (n @ suffix)"
  by (simp add: ends_with_def)

lemma ends_withE: "ends_with suffix m \<Longrightarrow> \<exists>n. m = n @ suffix"
  unfolding ends_with_def by (metis append_take_drop_id)

lemma unsuffixed_list_iff:
  "unsuffixed_list suffix es \<longleftrightarrow> (\<forall>e\<in>set es. \<not> ends_with suffix (fst e) \<and> unsuffixed suffix (snd e))"
  by (induction es) auto

lemma unsuffixed_map_of:
  "unsuffixed_list suffix es \<Longrightarrow> map_of es n = Some c \<Longrightarrow> \<not> ends_with suffix n \<and> unsuffixed suffix c"
  by (auto simp: unsuffixed_list_iff dest!: map_of_SomeD)

lemma unsuffixed_delete:
  "unsuffixed_list suffix es \<Longrightarrow> unsuffixed_list suffix (AList.delete n es)"
  by (auto simp: unsuffixed_list_iff AList.delete_eq)

lemma unsuffixed_absent:
  "unsuffixed_list suffix es \<Longrightarrow> map_of es (n @ suffix) = None"
  by (cases "map_of es (n @ suffix)") (auto dest: unsuffixed_map_of)

lemma length_delete_le: "length (AList.delete n es) \<le> length es"
  by (simp add: AList.delete_eq)

text \<open>The destination directory after one entry of the source.\<close>

lemma map_of_one_entry:
  assumes "\<not> ends_with suffix n"
  shows "map_of (AList.update n (rsync_item suffix s (map_of ds n)) (backed_up suffix n s ds)) k =
     (if k = n then Some (rsync_item suffix s (map_of ds n))
      else if k = n @ suffix \<and> (\<exists>x. map_of ds n = Some (File x) \<and> s \<noteq> File x)
      then map_of ds n
      else map_of ds k)"
proof -
  from assms have "\<not> is_backup_file suffix n" by (simp add: is_backup_file_def)
  then show ?thesis
    by (auto simp: backed_up_def update_conv' split: option.splits node.splits)
qed

lemma rsync_list_level:
  assumes "unsuffixed_list suffix ss"
  shows "(\<forall>m s. map_of ss m = Some s \<longrightarrow>
            map_of (rsync_list suffix ss ds) m = Some (rsync_item suffix s (map_of ds m)))
       \<and> (\<forall>n s x. map_of ss n = Some s \<and> map_of ds n = Some (File x) \<and> s \<noteq> File x \<longrightarrow>
            map_of (rsync_list suffix ss ds) (n @ suffix) = Some (File x))
       \<and> (\<forall>m. map_of ss m = None
              \<and> \<not> (\<exists>n s x. m = n @ suffix \<and> map_of ss n = Some s \<and> map_of ds n = Some (File x) \<and> s \<noteq> File x) \<longrightarrow>
            map_of (rsync_list suffix ss ds) m = map_of ds m)"
  using assms
proof (induction "length ss" arbitrary: ss ds rule: less_induct)
  case less
  show ?case
  proof (cases ss)
    case Nil
    then show ?thesis by simp
  next
    case (Cons e ss')
    obtain n s0 where e: "e = (n, s0)" by (cases e)
    let ?rest = "AList.delete n ss'"
    let ?ds1 = "AList.update n (rsync_item suffix s0 (map_of ds n)) (backed_up suffix n s0 ds)"
    let ?R = "rsync_list suffix ?rest ?ds1"
    have R: "rsync_list suffix ss ds = ?R" by (simp add: Cons e)
    from less.prems Cons e have n: "\<not> ends_with suffix n" and u': "unsuffixed_list suffix ss'"
      by simp_all
    then have sfx: "n @ suffix \<noteq> n" by (metis ends_with_append)
    have ur: "unsuffixed_list suffix ?rest" using u' by (rule unsuffixed_delete)
    have "length ?rest < length ss" using length_delete_le [of n ss'] Cons by simp
    from less.hyps [OF this ur, of ?ds1]
    have IH1: "\<And>m s. map_of ?rest m = Some s \<Longrightarrow> map_of ?R m = Some (rsync_item suffix s (map_of ?ds1 m))"
      and IH2: "\<And>k s x. map_of ?rest k = Some s \<Longrightarrow> map_of ?ds1 k = Some (File x) \<Longrightarrow> s \<noteq> File x \<Longrightarrow>
                 map_of ?R (k @ suffix) = Some (File x)"
      and IH3: "\<And>m. map_of ?rest m = None \<Longrightarrow>
                 \<not> (\<exists>k s x. m = k @ suffix \<and> map_of ?rest k = Some s \<and> map_of ?ds1 k = Some (File x) \<and> s \<noteq> File x) \<Longrightarrow>
                 map_of ?R m = map_of ?ds1 m"
      by blast+
    note one = map_of_one_entry [OF n, of s0 ds]
    have rest: "map_of ?rest m = (if m = n then None else map_of ss' m)" for m
      by (simp add: delete_conv')
    have ss: "map_of ss m = (if m = n then Some s0 else map_of ss' m)" for m
      by (simp add: Cons e)
    have named: "map_of ss' m = Some s \<Longrightarrow> \<not> ends_with suffix m" for m s
      using unsuffixed_map_of [OF u'] by blast
    show ?thesis
    proof (intro conjI allI impI)
      fix m s assume m: "map_of ss m = Some s"
      show "map_of (rsync_list suffix ss ds) m = Some (rsync_item suffix s (map_of ds m))"
      proof (cases "m = n")
        case True
        with m have s: "s = s0" by (simp add: ss)
        have "map_of ?R n = map_of ?ds1 n"
        proof (rule IH3)
          show "map_of ?rest n = None" by (simp add: rest)
          show "\<not> (\<exists>k s x. n = k @ suffix \<and> map_of ?rest k = Some s \<and> map_of ?ds1 k = Some (File x) \<and> s \<noteq> File x)"
            using n by auto
        qed
        with True s show ?thesis by (simp add: R one)
      next
        case False
        with m have m': "map_of ?rest m = Some s" and e: "\<not> ends_with suffix m"
          using named [of m s] by (simp_all add: ss rest)
        from e have "m \<noteq> n @ suffix" by auto
        with False have "map_of ?ds1 m = map_of ds m" by (simp add: one)
        with IH1 [OF m'] show ?thesis by (simp add: R)
      qed
    next
      fix k s x
      assume a: "map_of ss k = Some s \<and> map_of ds k = Some (File x) \<and> s \<noteq> File x"
      show "map_of (rsync_list suffix ss ds) (k @ suffix) = Some (File x)"
      proof (cases "k = n")
        case True
        with a have s: "s = s0" by (simp add: ss)
        have "map_of ?R (n @ suffix) = map_of ?ds1 (n @ suffix)"
        proof (rule IH3)
          show "map_of ?rest (n @ suffix) = None"
            using unsuffixed_absent [OF ur] by simp
          show "\<not> (\<exists>k s x. n @ suffix = k @ suffix \<and> map_of ?rest k = Some s
                     \<and> map_of ?ds1 k = Some (File x) \<and> s \<noteq> File x)"
            by (auto simp: rest)
        qed
        moreover from one [of "n @ suffix"] sfx a True s
        have "map_of ?ds1 (n @ suffix) = Some (File x)" by auto
        ultimately show ?thesis using True by (simp add: R)
      next
        case False
        with a have k': "map_of ?rest k = Some s" and e: "\<not> ends_with suffix k"
          using named [of k s] by (simp_all add: ss rest)
        from e have "k \<noteq> n @ suffix" by auto
        with False a have "map_of ?ds1 k = Some (File x)" by (simp add: one)
        from IH2 [OF k' this] a show ?thesis by (simp add: R)
      qed
    next
      fix m
      assume a: "map_of ss m = None
              \<and> \<not> (\<exists>n s x. m = n @ suffix \<and> map_of ss n = Some s \<and> map_of ds n = Some (File x) \<and> s \<noteq> File x)"
      then have mn: "m \<noteq> n" by (auto simp: ss)
      with a have none: "map_of ?rest m = None" by (simp add: ss rest)
      have "map_of ?R m = map_of ?ds1 m"
      proof (rule IH3 [OF none], rule notI)
        assume "\<exists>k s x. m = k @ suffix \<and> map_of ?rest k = Some s \<and> map_of ?ds1 k = Some (File x) \<and> s \<noteq> File x"
        then obtain k s x where k: "m = k @ suffix" "map_of ?rest k = Some s"
          "map_of ?ds1 k = Some (File x)" "s \<noteq> File x" by blast
        from k(2) have kn: "k \<noteq> n" and ks: "map_of ss k = Some s" and ke: "\<not> ends_with suffix k"
          using named [of k s] by (auto simp: rest ss split: if_splits)
        from ke have "k \<noteq> n @ suffix" by auto
        with kn k(3) have "map_of ds k = Some (File x)" by (simp add: one)
        with a k(1,4) ks show False by blast
      qed
      moreover have "map_of ?ds1 m = map_of ds m"
        using mn a by (auto simp: one ss)
      ultimately show "map_of (rsync_list suffix ss ds) m = map_of ds m" by (simp add: R)
    qed
  qed
qed

lemma rsync_item_Dir:
  "rsync_item suffix (Dir ss) d =
     Dir (rsync_list suffix ss (case d of Some (Dir es) \<Rightarrow> es | _ \<Rightarrow> []))"
  by (cases d) (auto split: node.splits)

lemma rsync_item_File:
  "rsync_item suffix (File y) d =
     (case d of Some (Dir es) \<Rightarrow> if es = [] then File y else Dir es | _ \<Rightarrow> File y)"
  by (cases d) (auto split: node.splits)

lemma lookup_File: "lookup (File c) q = Some k \<longleftrightarrow> q = [] \<and> k = File c"
  by (cases q) auto

lemma lookup_empty_Dir: "q \<noteq> [] \<Longrightarrow> lookup (Dir []) q = None"
  by (cases q) auto

lemma lookup_Dir_Cons:
  "lookup (Dir es) (n # q) = (case map_of es n of None \<Rightarrow> None | Some c \<Rightarrow> lookup c q)"
  by simp

lemma backup_name_single [simp]: "backup_name suffix [n] = [n @ suffix]"
  by (simp add: backup_name_def)

lemma backup_name_Cons: "q \<noteq> [] \<Longrightarrow> backup_name suffix (n # q) = n # backup_name suffix q"
  by (simp add: backup_name_def)

lemma backup_name_append: "p \<noteq> [] \<Longrightarrow> backup_name suffix (d @ p) = d @ backup_name suffix p"
  by (simp add: backup_name_def butlast_append)

lemmas level = rsync_list_level [THEN conjunct1, rule_format]
  rsync_list_level [THEN conjunct2, THEN conjunct1, rule_format]
  rsync_list_level [THEN conjunct2, THEN conjunct2, rule_format]

lemma rsync_list_unnamed:
  assumes "unsuffixed_list suffix ss" "map_of ss n = None" "\<not> ends_with suffix n"
  shows "map_of (rsync_list suffix ss ds) n = map_of ds n"
  using level(3) [OF assms(1), of n ds] assms(2,3) by (metis ends_with_append)

text \<open>A file of the source arrives, unless a directory that is not empty is in its place.\<close>

lemma rsync_list_copies:
  assumes "unsuffixed_list suffix ss" "lookup (Dir ss) p = Some (File y)"
  shows "lookup (Dir (rsync_list suffix ss ds)) p = Some (File y)
         \<or> (\<exists>es. lookup (Dir ds) p = Some (Dir es) \<and> es \<noteq> [])"
  using assms
proof (induction p arbitrary: ss ds)
  case Nil
  then show ?case by simp
next
  case (Cons n q)
  from Cons.prems(2) obtain s where s: "map_of ss n = Some s" "lookup s q = Some (File y)"
    by (auto split: option.splits)
  note R = level(1) [OF Cons.prems(1) s(1), of ds]
  show ?case
  proof (cases s)
    case (File c)
    with s(2) have q: "q = []" "c = y" by (simp_all add: lookup_File)
    show ?thesis
      using R File q by (auto simp: rsync_item_File split: option.splits node.splits)
  next
    case (Dir ss')
    let ?es = "case map_of ds n of Some (Dir es) \<Rightarrow> es | _ \<Rightarrow> []"
    from Dir s(2) have q: "q \<noteq> []" by auto
    from unsuffixed_map_of [OF Cons.prems(1) s(1)] Dir have u: "unsuffixed_list suffix ss'" by simp
    from Cons.IH [OF u, of ?es] s(2) Dir
    consider "lookup (Dir (rsync_list suffix ss' ?es)) q = Some (File y)"
      | es where "lookup (Dir ?es) q = Some (Dir es)" "es \<noteq> []" by auto
    then show ?thesis
    proof cases
      case 1
      with R Dir show ?thesis by (simp add: rsync_item_Dir)
    next
      case 2
      with q have "lookup (Dir ds) (n # q) = Some (Dir es)"
        by (auto simp: lookup_empty_Dir split: option.splits node.splits)
      with 2(2) show ?thesis by blast
    qed
  qed
qed

text \<open>Where the source has nothing, the destination is as it was.\<close>

lemma rsync_list_leaves:
  assumes "unsuffixed_list suffix ss" "\<forall>n\<in>set p. \<not> ends_with suffix n" "lookup (Dir ss) p = None"
  shows "lookup (Dir (rsync_list suffix ss ds)) p = lookup (Dir ds) p"
  using assms
proof (induction p arbitrary: ss ds)
  case Nil
  then show ?case by simp
next
  case (Cons n q)
  from Cons.prems(2) have n: "\<not> ends_with suffix n" and qs: "\<forall>n\<in>set q. \<not> ends_with suffix n"
    by simp_all
  show ?case
  proof (cases "map_of ss n")
    case None
    from rsync_list_unnamed [OF Cons.prems(1) None n, of ds] show ?thesis by simp
  next
    case (Some s)
    note R = level(1) [OF Cons.prems(1) Some, of ds]
    from Cons.prems(3) Some have sq: "lookup s q = None" by simp
    then have q: "q \<noteq> []" by (cases q) auto
    show ?thesis
    proof (cases s)
      case (File c)
      show ?thesis
        using R File q
        by (cases q) (auto simp: rsync_item_File split: option.splits node.splits)
    next
      case (Dir ss')
      let ?es = "case map_of ds n of Some (Dir es) \<Rightarrow> es | _ \<Rightarrow> []"
      from unsuffixed_map_of [OF Cons.prems(1) Some] Dir have u: "unsuffixed_list suffix ss'" by simp
      from Cons.IH [OF u qs, of ?es] sq Dir
      have "lookup (Dir (rsync_list suffix ss' ?es)) q = lookup (Dir ?es) q" by simp
      moreover have "lookup (Dir ?es) q = lookup (Dir ds) (n # q)"
        using q by (cases q) (auto split: option.splits node.splits)
      ultimately show ?thesis using R Dir by (simp add: rsync_item_Dir)
    qed
  qed
qed

text \<open>A file of the destination that is replaced or removed is kept under its backup name.\<close>

lemma rsync_list_backs_up:
  assumes "unsuffixed_list suffix ss" "\<forall>n\<in>set p. \<not> ends_with suffix n"
    and "lookup (Dir ds) p = Some (File x)"
    and "lookup (Dir (rsync_list suffix ss ds)) p \<noteq> Some (File x)"
  shows "lookup (Dir (rsync_list suffix ss ds)) (backup_name suffix p) = Some (File x)"
  using assms
proof (induction p arbitrary: ss ds)
  case Nil
  then show ?case by simp
next
  case (Cons n q)
  from Cons.prems(2) have n: "\<not> ends_with suffix n" and qs: "\<forall>n\<in>set q. \<not> ends_with suffix n"
    by simp_all
  from Cons.prems(3) obtain d0 where d0: "map_of ds n = Some d0" "lookup d0 q = Some (File x)"
    by (auto split: option.splits)
  show ?case
  proof (cases "map_of ss n")
    case None
    from rsync_list_unnamed [OF Cons.prems(1) None n, of ds] Cons.prems(3,4) show ?thesis by simp
  next
    case (Some s)
    note R = level(1) [OF Cons.prems(1) Some, of ds]
    show ?thesis
    proof (cases "q = []")
      case True
      with d0 have d: "d0 = File x" by simp
      with R d0 Cons.prems(4) True have "s \<noteq> File x" by auto
      from level(2) [OF Cons.prems(1), of n s ds x] Some d0 d this True show ?thesis by simp
    next
      case False
      with d0 obtain es where es0: "d0 = Dir es"
        by (cases d0; cases q) auto
      with d0 False have "es \<noteq> []" by (cases q) auto
      note es = es0 this
      show ?thesis
      proof (cases s)
        case (File c)
        with R d0 es Cons.prems(3,4) show ?thesis by (simp add: rsync_item_File)
      next
        case (Dir ss')
        from unsuffixed_map_of [OF Cons.prems(1) Some] Dir have u: "unsuffixed_list suffix ss'" by simp
        from R Dir d0 es have Rn: "map_of (rsync_list suffix ss ds) n = Some (Dir (rsync_list suffix ss' es))"
          by (simp add: rsync_item_Dir)
        with Cons.prems(4) have "lookup (Dir (rsync_list suffix ss' es)) q \<noteq> Some (File x)" by simp
        from Cons.IH [OF u qs _ this] d0 es Rn False show ?thesis
          by (simp add: backup_name_Cons)
      qed
    qed
  qed
qed

text \<open>A file that both trees hold with the same bytes is left alone, and no backup is made of it.\<close>

lemma rsync_list_skips_identical:
  assumes "unsuffixed_list suffix ss"
    and "lookup (Dir ss) p = Some (File x)" "lookup (Dir ds) p = Some (File x)"
  shows "lookup (Dir (rsync_list suffix ss ds)) p = Some (File x)
         \<and> lookup (Dir (rsync_list suffix ss ds)) (backup_name suffix p)
             = lookup (Dir ds) (backup_name suffix p)"
  using assms
proof (induction p arbitrary: ss ds)
  case Nil
  then show ?case by simp
next
  case (Cons n q)
  from Cons.prems(2) obtain s where s: "map_of ss n = Some s" "lookup s q = Some (File x)"
    by (auto split: option.splits)
  from Cons.prems(3) obtain d0 where d0: "map_of ds n = Some d0" "lookup d0 q = Some (File x)"
    by (auto split: option.splits)
  note R = level(1) [OF Cons.prems(1) s(1), of ds]
  show ?case
  proof (cases "q = []")
    case True
    with s d0 have sd: "s = File x" "d0 = File x" by simp_all
    have "map_of (rsync_list suffix ss ds) (n @ suffix) = map_of ds (n @ suffix)"
      using level(3) [OF Cons.prems(1), of "n @ suffix" ds] unsuffixed_absent [OF Cons.prems(1), of n]
        s(1) d0(1) sd by auto
    with R sd d0 True show ?thesis by simp
  next
    case False
    with s d0 obtain ss' es where sd: "s = Dir ss'" "d0 = Dir es"
      by (cases s; cases d0; cases q) auto
    from unsuffixed_map_of [OF Cons.prems(1) s(1)] sd have u: "unsuffixed_list suffix ss'" by simp
    from R sd d0 have Rn: "map_of (rsync_list suffix ss ds) n = Some (Dir (rsync_list suffix ss' es))"
      by (simp add: rsync_item_Dir)
    from Cons.IH [OF u, of es] s(2) d0 sd Rn False show ?thesis
      by (simp add: backup_name_Cons)
  qed
qed

lemma alter_replaces:
  "lookup fs p = Some k \<Longrightarrow> p \<noteq> [] \<Longrightarrow> \<exists>fs'. alter (\<lambda>_. Inr (Some n)) p fs = Inr fs'"
proof (induction p arbitrary: fs)
  case Nil
  then show ?case by simp
next
  case (Cons x p)
  from Cons.prems(1) obtain es c where fs: "fs = Dir es" and c: "map_of es x = Some c" "lookup c p = Some k"
    by (cases fs) (auto split: option.splits)
  show ?case
  proof (cases "p = []")
    case True
    with fs show ?thesis by simp
  next
    case False
    from Cons.IH [OF c(2) False] obtain c' where "alter (\<lambda>_. Inr (Some n)) p c = Inr c'" by blast
    with fs c False show ?thesis by (simp add: alter_Cons_Cons)
  qed
qed

lemma lookup_put:
  assumes "lookup fs d = Some k"
  shows "lookup (put d n fs) (d @ p) = lookup n p"
proof (cases "d = []")
  case True
  then show ?thesis by (simp add: put_def)
next
  case False
  from alter_replaces [OF assms False, of n] obtain fs' where a: "alter (\<lambda>_. Inr (Some n)) d fs = Inr fs'"
    by blast
  from alter_result [OF a] have "lookup fs' d = Some n" by simp
  from lookup_append [OF this] a False show ?thesis by (simp add: put_def)
qed

lemma rsync_lookup:
  assumes "lookup fs src = Some (Dir ss)" "lookup fs dst = Some (Dir ds)"
  shows "lookup (rsync suffix src dst fs) (dst @ p) = lookup (Dir (rsync_list suffix ss ds)) p"
  using assms lookup_put [OF assms(2)] by (simp add: rsync_def)

lemma rsync_properties:
  assumes "lookup fs src = Some (Dir ss)" "isdir fs dst" "unsuffixed suffix (Dir ss)"
  shows "lookup fs (src @ p) = Some (File y) \<Longrightarrow>
           lookup (rsync suffix src dst fs) (dst @ p) = Some (File y)
           \<or> (\<exists>es. lookup fs (dst @ p) = Some (Dir es) \<and> es \<noteq> [])"
    and "(\<forall>n\<in>set p. \<not> ends_with suffix n) \<Longrightarrow> lookup fs (dst @ p) = Some (File x) \<Longrightarrow>
           lookup (rsync suffix src dst fs) (dst @ p) \<noteq> Some (File x) \<Longrightarrow>
           lookup (rsync suffix src dst fs) (backup_name suffix (dst @ p)) = Some (File x)"
    and "lookup fs (src @ p) = Some (File x) \<Longrightarrow> lookup fs (dst @ p) = Some (File x) \<Longrightarrow>
           lookup (rsync suffix src dst fs) (dst @ p) = Some (File x)
           \<and> lookup (rsync suffix src dst fs) (backup_name suffix (dst @ p))
               = lookup fs (backup_name suffix (dst @ p))"
    and "(\<forall>n\<in>set p. \<not> ends_with suffix n) \<Longrightarrow> lookup fs (src @ p) = None \<Longrightarrow>
           lookup (rsync suffix src dst fs) (dst @ p) = lookup fs (dst @ p)"
proof -
  from assms(2) obtain ds where ds: "lookup fs dst = Some (Dir ds)"
    by (auto simp: isdir_def split: option.splits node.splits)
  note r = rsync_lookup [OF assms(1) ds, of suffix]
  note s = lookup_append [OF assms(1)]
  note d = lookup_append [OF ds]
  from assms(3) have u: "unsuffixed_list suffix ss" by simp
  show "lookup fs (src @ p) = Some (File y) \<Longrightarrow>
           lookup (rsync suffix src dst fs) (dst @ p) = Some (File y)
           \<or> (\<exists>es. lookup fs (dst @ p) = Some (Dir es) \<and> es \<noteq> [])"
    using rsync_list_copies [OF u, of p y ds] by (simp add: r s d)
  show "(\<forall>n\<in>set p. \<not> ends_with suffix n) \<Longrightarrow> lookup fs (dst @ p) = Some (File x) \<Longrightarrow>
           lookup (rsync suffix src dst fs) (dst @ p) \<noteq> Some (File x) \<Longrightarrow>
           lookup (rsync suffix src dst fs) (backup_name suffix (dst @ p)) = Some (File x)"
    using rsync_list_backs_up [OF u, of p ds x] ds
    by (cases "p = []") (simp_all add: r s d backup_name_append)
  show "lookup fs (src @ p) = Some (File x) \<Longrightarrow> lookup fs (dst @ p) = Some (File x) \<Longrightarrow>
           lookup (rsync suffix src dst fs) (dst @ p) = Some (File x)
           \<and> lookup (rsync suffix src dst fs) (backup_name suffix (dst @ p))
               = lookup fs (backup_name suffix (dst @ p))"
    using rsync_list_skips_identical [OF u, of p x ds] ds
    by (cases "p = []") (simp_all add: r s d backup_name_append)
  show "(\<forall>n\<in>set p. \<not> ends_with suffix n) \<Longrightarrow> lookup fs (src @ p) = None \<Longrightarrow>
           lookup (rsync suffix src dst fs) (dst @ p) = lookup fs (dst @ p)"
    using rsync_list_leaves [OF u, of p ds] by (simp add: r s d)
qed

lemma split_at_name:
  "sep \<notin> set x \<Longrightarrow> split_at sep (x @ sep # u) = x # split_at sep u"
  by (induction x) auto

lemma split_at_path_str:
  "\<forall>x\<in>set p. CHR ''/'' \<notin> set x \<Longrightarrow>
     split_at CHR ''/'' (path_str p @ ''/'') = [] # p @ [[]]"
proof (induction p)
  case Nil
  then show ?case by (simp add: path_str_def)
next
  case (Cons x p)
  obtain u where u: "path_str p @ ''/'' = CHR ''/'' # u"
    by (cases p) (simp_all add: path_str_def)
  from Cons have "split_at CHR ''/'' (CHR ''/'' # u) = [] # p @ [[]]" by (simp add: u)
  then have "split_at CHR ''/'' u = p @ [[]]" by simp
  moreover have "path_str (x # p) @ ''/'' = CHR ''/'' # x @ CHR ''/'' # u"
    using u by (simp add: path_str_def)
  ultimately show ?case using Cons.prems by (simp add: split_at_name)
qed

lemma normpath_plain: "plain p \<Longrightarrow> normpath cur (p @ rest) = normpath (cur @ p) rest"
  by (induction p arbitrary: cur) (auto simp: plain_def)

lemma abspath_path_str:
  assumes "plain p"
  shows "abspath env (path_str p @ ''/'') = p"
proof -
  from assms have "split_at CHR ''/'' (path_str p @ ''/'') = [] # p @ [[]]"
    by (intro split_at_path_str) (simp add: plain_def)
  moreover have "(case path_str p @ ''/'' of [] \<Rightarrow> cwd env
                  | c # _ \<Rightarrow> if c = CHR ''/'' then [] else cwd env) = []"
    by (cases p) (simp_all add: path_str_def)
  ultimately show ?thesis
    using normpath_plain [OF assms, of "[]" "[[]]"] by (simp add: abspath_def)
qed

lemma process_of_rsync:
  "process env [''rsync'', ''--recursive'', ''--checksum'', ''--backup'', ''--suffix='' @ suffix,
                source @ ''/'', destination] fs
     = rsync suffix (abspath env (source @ ''/'')) (abspath env destination) fs"
  by (simp add: process_def)

lemma sync_returns:
  assumes "StudipSync_sync env cfg self w = (Inr (), w')"
  shows "spawned w' = spawned w @
           [[''rsync'', ''--recursive'', ''--checksum'', ''--backup'',
             ''--suffix='' @ ''_'' @ strftime (now env (clock_reads w)) @ ''.old'',
             path_str (extract_dir self) @ ''/'', destination_dir self]]"
    and "clock_reads w' = Suc (clock_reads w)"
    and "filesystem w' =
           rsync (''_'' @ strftime (now env (clock_reads w)) @ ''.old'')
             (abspath env (path_str (extract_dir self) @ ''/'')) (abspath env (destination_dir self))
             (filesystem (snd (sync_session env cfg self
                (snd (print ''Logging in...'' (snd (RsyncWrapper_init env w)))))))"
proof -
  from assms obtain sfx w1 w2 w3 w4 where
    init: "RsyncWrapper_init env w = (Inr sfx, w1)"
    and p1: "print ''Logging in...'' w1 = (Inr (), w2)"
    and mid: "sync_session env cfg self w2 = (Inr (), w3)"
    and p2: "print ''Synchronizing with existing files...'' w3 = (Inr (), w4)"
    and call: "RsyncWrapper_sync env sfx (path_str (extract_dir self) @ ''/'')
                 (destination_dir self) w4 = (Inr (), w')"
    unfolding StudipSync_sync_def by (auto simp: pbind_Inr pthen_Inr)
  from init have sfx: "sfx = ''_'' @ strftime (now env (clock_reads w)) @ ''.old''"
    and w1: "spawned w1 = spawned w" "clock_reads w1 = Suc (clock_reads w)"
    by (auto simp: RsyncWrapper_init_def datetime_now_def pbind_def pret_def)
  have w4: "spawned w4 = spawned w" "clock_reads w4 = Suc (clock_reads w)"
    using preservesD [OF preserves_print(1) p1] preservesD [OF preserves_print(2) p1]
      preservesD [OF preserves_sync_session(1) mid] preservesD [OF preserves_sync_session(2) mid]
      preservesD [OF preserves_print(1) p2] preservesD [OF preserves_print(2) p2] w1
    by simp_all
  have f4: "filesystem w4 = filesystem (snd (sync_session env cfg self
                (snd (print ''Logging in...'' (snd (RsyncWrapper_init env w))))))"
    using init p1 mid preservesD [OF preserves_print(3) p2] by simp
  from call have w': "w' = w4\<lparr>spawned := spawned w4 @
           [[''rsync'', ''--recursive'', ''--checksum'', ''--backup'', ''--suffix='' @ sfx,
             path_str (extract_dir self) @ ''/'', destination_dir self]],
        filesystem := rsync sfx (abspath env (path_str (extract_dir self) @ ''/''))
                        (abspath env (destination_dir self)) (filesystem w4)\<rparr>"
    unfolding RsyncWrapper_sync_def subprocess_call_def process_of_rsync
    by (auto split: if_splits)
  show "spawned w' = spawned w @
           [[''rsync'', ''--recursive'', ''--checksum'', ''--backup'',
             ''--suffix='' @ ''_'' @ strftime (now env (clock_reads w)) @ ''.old'',
             path_str (extract_dir self) @ ''/'', destination_dir self]]"
    by (simp add: w' w4 sfx)
  show "clock_reads w' = Suc (clock_reads w)" by (simp add: w' w4)
  show "filesystem w' =
           rsync (''_'' @ strftime (now env (clock_reads w)) @ ''.old'')
             (abspath env (path_str (extract_dir self) @ ''/'')) (abspath env (destination_dir self))
             (filesystem (snd (sync_session env cfg self
                (snd (print ''Logging in...'' (snd (RsyncWrapper_init env w)))))))"
    by (simp add: w' f4 sfx)
qed

lemma example_late_timestamp:
  "strftime \<lparr>year = 987, month = 12, day = 31, hour = 23, minute = 59, second = 58\<rparr>
     = ''987-12-31_23+59+58''"
  by code_simp

lemma example_sync_completes:
  "fst (StudipSync_sync example_env example_config example_self world_with_documents) = Inr ()"
  "fst (StudipSync_sync late_env relative_config relative_self world_ready) = Inr ()"
  by (simp_all add: run_eval example_timestamp example_late_timestamp)

lemma example_late_merge:
  "rsync ''_987-12-31_23+59+58.old'' [''tmp'', ''studip-syncaaa'', ''extracted''] [''home'', ''docs'']
     (filesystem (snd (sync_session late_env relative_config relative_self
        (snd (print ''Logging in...'' (snd (RsyncWrapper_init late_env world_ready)))))))
   = Dir [(''tmp'', Dir [(''studip-syncaaa'',
             Dir [(''zips'', Dir [(''c2'', File wrapped_archive)]),
                  (''extracted'', Dir [(''Logic'', Dir [(''a'', File (Raw ''x'')),
                                                       (''b'', File (Raw ''y''))])])])]),
          (''home'', Dir [(''docs'', Dir [(''Logic'', Dir [(''a'', File (Raw ''x'')),
                                                        (''b'', File (Raw ''y''))])])])]"
  by (simp add: run_eval example_late_timestamp)

lemma example_documents_staged:
  "filesystem documents_staged =
     Dir [(''tmp'', Dir [(''studip-syncaaa'',
             Dir [(''zips'', Dir [(''c2'', File wrapped_archive)]),
                  (''extracted'', Dir [(''Logic'', Dir [(''a'', File (Raw ''x'')),
                                                       (''b'', File (Raw ''y''))])])])]),
          (''home'', Dir [(''docs'', Dir [(''Logic'',
             Dir [(''a'', File (Raw ''old'')), (''b'', File (Raw ''y'')),
                  (''c'', File (Raw ''mine''))])])])]"
  by (simp add: documents_staged_def run_eval)

lemma example_arguments:
  "path_str (extract_dir example_self) @ ''/'' = ''/tmp/studip-syncaaa/extracted/''"
  "destination_dir example_self = ''/home/docs''"
  "abspath example_env ''/tmp/studip-syncaaa/extracted/'' = [''tmp'', ''studip-syncaaa'', ''extracted'']"
  "abspath example_env ''/home/docs'' = [''home'', ''docs'']"
  "path_str (extract_dir relative_self) @ ''/'' = ''/tmp/studip-syncaaa/extracted/''"
  "destination_dir relative_self = ''../home/./docs/''"
  "abspath late_env ''/tmp/studip-syncaaa/extracted/'' = [''tmp'', ''studip-syncaaa'', ''extracted'']"
  "abspath late_env ''../home/./docs/'' = [''home'', ''docs'']"
  "now example_env 0 = \<lparr>year = 2024, month = 3, day = 9, hour = 7, minute = 5, second = 0\<rparr>"
  "now late_env 0 = \<lparr>year = 987, month = 12, day = 31, hour = 23, minute = 59, second = 58\<rparr>"
  "spawned world_with_documents = []" "clock_reads world_with_documents = 0"
  "spawned world_ready = []" "clock_reads world_ready = 0"
  by (simp_all add: path_str_def abspath_def example_self_def example_env_def late_env_def
        relative_self_def world_with_documents_def world_ready_def)




section \<open>The workspace after the run\<close>

lemma isdir_Nil [simp]: "isdir fs [] \<longleftrightarrow> (\<exists>es. fs = Dir es)"
  by (cases fs) (simp_all add: isdir_def)

lemma isdir_Cons:
  "isdir fs (z # q) \<longleftrightarrow> (\<exists>es c. fs = Dir es \<and> map_of es z = Some c \<and> isdir c q)"
  by (cases fs) (auto simp: isdir_def split: option.splits)

lemma alter_keeps_prefix:
  "alter f (q @ x # p) fs = Inr fs' \<Longrightarrow> isdir fs' q"
proof (induction q arbitrary: fs fs')
  case Nil
  then show ?case
    by (cases fs; cases p) (auto split: sum.splits option.splits)
next
  case (Cons z q)
  from Cons.prems obtain es where fs: "fs = Dir es" by (cases fs) auto
  from Cons.prems fs obtain c c' where c: "map_of es z = Some c" "alter f (q @ x # p) c = Inr c'"
    "fs' = Dir (AList.update z c' es)"
    by (auto simp: alter_Cons_Cons split: option.splits sum.splits)
  from Cons.IH [OF c(2)] c(3) show ?case
    by (simp add: isdir_Cons update_conv')
qed

lemma mkdir_mono:
  "mkdir p fs = Inr fs' \<Longrightarrow> isdir fs q \<Longrightarrow> isdir fs' q"
proof (induction p arbitrary: fs fs' q)
  case Nil
  then show ?case by (simp add: mkdir_def)
next
  case (Cons x p)
  from Cons.prems(1) obtain es where fs: "fs = Dir es" by (cases fs) (auto simp: mkdir_def)
  show ?case
  proof (cases p)
    case Nil
    with Cons.prems fs have n: "map_of es x = None" and fs': "fs' = Dir (AList.update x (Dir []) es)"
      by (auto simp: mkdir_def split: option.splits)
    show ?thesis
    proof (cases q)
      case Nil
      with fs' show ?thesis by simp
    next
      case (Cons y r)
      with Cons.prems(2) fs n fs' show ?thesis
        by (auto simp: isdir_Cons update_conv')
    qed
  next
    case (Cons y p')
    with Cons.prems(1) fs obtain c c' where c: "map_of es x = Some c" "mkdir p c = Inr c'"
      "fs' = Dir (AList.update x c' es)"
      by (auto simp: mkdir_def split: option.splits sum.splits)
    show ?thesis
    proof (cases q)
      case Nil
      with c show ?thesis by simp
    next
      case (Cons z r)
      with Cons.prems(2) fs c Cons.IH [OF c(2), of r] show ?thesis
        by (auto simp: isdir_Cons update_conv')
    qed
  qed
qed

lemma makedirs_from_mono:
  "makedirs_from eo base xs fs = Inr fs' \<Longrightarrow> isdir fs q \<Longrightarrow> isdir fs' q"
proof (induction xs arbitrary: base fs)
  case Nil
  then show ?case by simp
next
  case (Cons x xs)
  show ?case
  proof (cases "lookup fs (base @ [x])")
    case None
    with Cons.prems(1) obtain fs1 where m: "mkdir (base @ [x]) fs = Inr fs1"
      and r: "makedirs_from eo (base @ [x]) xs fs1 = Inr fs'"
      by (auto split: sum.splits)
    from Cons.IH [OF r mkdir_mono [OF m Cons.prems(2)]] show ?thesis .
  next
    case (Some n)
    with Cons.prems(1) have "makedirs_from eo (base @ [x]) xs fs = Inr fs' \<or> fs' = fs"
      by (cases n) (auto split: if_splits)
    with Cons.IH Cons.prems(2) show ?thesis by blast
  qed
qed

lemma mkdir_result: "mkdir p fs = Inr fs' \<Longrightarrow> isdir fs' p"
proof -
  assume "mkdir p fs = Inr fs'"
  from alter_result [OF this [unfolded mkdir_def]]
  have "lookup fs' p = Some (Dir [])"
    by (cases "lookup fs p") simp_all
  then show ?thesis by (simp add: isdir_def)
qed

lemma keptD: "kept I m \<Longrightarrow> I s \<Longrightarrow> I (snd (m s))"
  by (simp add: kept_def)

lemma keeps_dirD: "keeps_dir q m \<Longrightarrow> isdir fs q \<Longrightarrow> isdir (snd (m fs)) q"
  by (simp add: kept_def)

lemma kept_pret [simp]: "kept I (pret a)"
  by (simp add: kept_def pret_def)

lemma kept_praise [simp]: "kept I (praise e)"
  by (simp add: kept_def praise_def)

lemma kept_pbind:
  assumes "kept I m" "\<And>a. kept I (k a)"
  shows "kept I (pbind m k)"
  unfolding kept_def
proof (intro allI impI)
  fix s assume d: "I s"
  obtain r s1 where m: "m s = (r, s1)" by (cases "m s")
  from keptD [OF assms(1) d] m have d1: "I s1" by simp
  show "I (snd (pbind m k s))"
  proof (cases r)
    case (Inl e)
    with m d1 show ?thesis by (simp add: pbind_def)
  next
    case (Inr a)
    with m keptD [OF assms(2) d1, of a] show ?thesis by (simp add: pbind_def)
  qed
qed

lemma kept_pthen: "kept I m \<Longrightarrow> kept I k \<Longrightarrow> kept I (pthen m k)"
  by (simp add: pthen_def kept_pbind)

lemma kept_pforeach: "(\<And>x. kept I (body x)) \<Longrightarrow> kept I (pforeach xs body)"
  by (induction xs) (simp_all add: kept_pbind)

lemma kept_if: "kept I a \<Longrightarrow> kept I b \<Longrightarrow> kept I (if c then a else b)"
  by simp

lemma kept_pcatch:
  assumes "kept I m" "\<And>e. kept I (h e)"
  shows "kept I (pcatch m h)"
  unfolding kept_def
proof (intro allI impI)
  fix s assume d: "I s"
  obtain r s1 where m: "m s = (r, s1)" by (cases "m s")
  from keptD [OF assms(1) d] m have d1: "I s1" by simp
  show "I (snd (pcatch m h s))"
  proof (cases r)
    case (Inl e)
    with m keptD [OF assms(2) d1, of e] show ?thesis by (simp add: pcatch_def)
  next
    case (Inr a)
    with m d1 show ?thesis by (simp add: pcatch_def)
  qed
qed

lemma kept_pwith:
  assumes "kept I m" "kept I x"
  shows "kept I (pwith m x)"
  unfolding kept_def
proof (intro allI impI)
  fix s assume d: "I s"
  have "snd (pwith m x s) = snd (x (snd (m s)))"
    by (simp add: pwith_def split: prod.splits sum.splits)
  with keptD [OF assms(2) keptD [OF assms(1) d]] show "I (snd (pwith m x s))"
    by simp
qed

lemmas kept_intros = kept_pbind kept_pthen kept_pforeach kept_if kept_pcatch kept_pwith

lemma keeps_dir_os_call:
  "(\<And>fs fs'. g fs = Inr fs' \<Longrightarrow> isdir fs q \<Longrightarrow> isdir fs' q) \<Longrightarrow> keeps_dir q (os_call g)"
  by (auto simp: kept_def os_call_def split: sum.splits)

lemma keeps_dir_os_read [simp]: "keeps_dir q (os_read g)"
  by (auto simp: kept_def os_read_def split: sum.splits)

lemma keeps_dir_below:
  "keeps_dir q (os_call (alter f (q @ x # p)))"
  by (rule keeps_dir_os_call) (rule alter_keeps_prefix)

lemma keeps_dir_rmdir: "keeps_dir q (os_call (rmdir (q @ x # p)))"
  unfolding rmdir_def by (rule keeps_dir_below)

lemma keeps_dir_write_file: "keeps_dir q (os_call (write_file (q @ x # p) c))"
  unfolding write_file_def by (rule keeps_dir_below)

lemma keeps_dir_mkdir: "keeps_dir q (os_call (mkdir p))"
  by (rule keeps_dir_os_call) (rule mkdir_mono)

lemma keeps_dir_makedirs: "keeps_dir q (os_call (makedirs eo p))"
  by (rule keeps_dir_os_call) (auto simp: makedirs_def split: if_splits dest: makedirs_from_mono)

lemma keeps_dir_shutil_move: "keeps_dir q (os_call (shutil_move src (q @ x # p)))"
proof (rule keeps_dir_os_call)
  fix fs fs'
  assume "shutil_move src (q @ x # p) fs = Inr fs'"
  then obtain fs1 where "alter (\<lambda>_. Inr (Some (the (lookup fs src)))) (q @ x # (p @ [last src])) fs1 = Inr fs'"
    by (auto simp: shutil_move_def rename_def Let_def split: if_splits option.splits sum.splits)
  then show "isdir fs' q" by (rule alter_keeps_prefix)
qed

lemma keeps_dir_extract_member: "keeps_dir q (extract_member (q @ x # p) m)"
proof -
  have w: "keeps_dir q (os_call (write_file (q @ x # p @ arcname (fst m)) c))" for c
    using keeps_dir_write_file [of q x "p @ arcname (fst m)"] by simp
  have u: "keeps_dir q (\<lambda>fs. if c fs then os_call (makedirs False d) fs else pret () fs)" for c d
    by (simp add: kept_def keeps_dirD [OF keeps_dir_makedirs] pret_def)
  have d: "keeps_dir q (\<lambda>fs. if c fs then pret () fs else os_call (mkdir d) fs)" for c d
    by (simp add: kept_def keeps_dirD [OF keeps_dir_mkdir] pret_def)
  show ?thesis
    unfolding extract_member_def Let_def
    by (cases "snd m") (auto intro!: kept_pthen u d w)
qed

lemma keeps_dir_extractall: "keeps_dir q (extractall ms (q @ x # p))"
  unfolding extractall_def by (rule kept_pforeach) (rule keeps_dir_extract_member)

lemma keeps_dir_remove_intermediary_dir: "keeps_dir q (remove_intermediary_dir (q @ x # p))"
  unfolding remove_intermediary_dir_def
  apply (intro kept_intros keeps_dir_os_read kept_pret keeps_dir_shutil_move)
   apply (simp add: kept_def pret_def)
  apply (simp add: keeps_dir_rmdir [of q x "p @ [s]" for s, simplified])
  done

lemma keeps_dir_walk_below:
  "\<exists>x p. root = q @ x # p \<Longrightarrow> keeps_dir q (walk root n)"
  "\<exists>x p. root = q @ x # p \<Longrightarrow> keeps_dir q (walk_dirs root es)"
proof (induction root n and root es rule: walk_walk_dirs.induct)
  case (1 root c)
  then show ?case by simp
next
  case (2 root es)
  from 2(2) obtain x p where r: "root = q @ x # p" by blast
  from 2(1) [OF 2(2)] show ?case
    by (auto simp: r intro!: kept_pthen kept_if keeps_dir_rmdir)
next
  case (3 root)
  then show ?case by simp
next
  case (4 root n c es)
  from 4(3) obtain x p where r: "root = q @ x # p" by blast
  then have "\<exists>x p. root @ [n] = q @ x # p" by simp
  from 4(1) [OF this] 4(2) [OF 4(3)] show ?case
    by (auto intro!: kept_pthen)
qed

lemma keeps_dir_walk: "keeps_dir q (walk (q @ x # p) n)"
  by (rule keeps_dir_walk_below) blast

lemma keeps_dir_remove_empty_dirs: "keeps_dir q (remove_empty_dirs (q @ x # p))"
  using keeps_dir_walk [of q x p]
  by (auto simp: kept_def remove_empty_dirs_def pret_def split: option.splits)

lemma keeps_dir_Extractor_extract: "keeps_dir q (Extractor_extract (q @ [x]) a n cl)"
proof -
  have z: "keeps_dir q (ZipFile a)"
    by (auto simp: kept_def ZipFile_def split: sum.splits node.splits content.splits)
  have "keeps_dir q (extract_body (q @ [x]) a n cl)"
    unfolding extract_body_def Let_def
    using keeps_dir_extractall [of q _ x "[n]"] keeps_dir_remove_intermediary_dir [of q x "[n]"]
      keeps_dir_remove_empty_dirs [of q x "[n]"]
    by (intro kept_intros z kept_pret) simp_all
  then show ?thesis
    unfolding Extractor_extract_def
    by (rule kept_pcatch) (simp split: exn.splits)
qed

lemma stays_dir_preserves: "preserves filesystem m \<Longrightarrow> stays_dir q m"
  by (simp add: kept_def preserves_def)

lemma stays_dir_on_fs: "keeps_dir q m \<Longrightarrow> stays_dir q (on_fs m)"
  by (auto simp: kept_def on_fs_def split: prod.splits)

lemma stays_dir_download: "stays_dir q (download env (q @ [z]) cid only)"
proof -
  have w: "\<And>c. stays_dir q (on_fs (os_call (write_file ((q @ [z]) @ [cid]) c)))"
    using keeps_dir_write_file [of q z "[cid]"] by (simp add: stays_dir_on_fs)
  have h: "\<And>e. stays_dir q (case e of
                 NoSuchElementException \<Rightarrow>
                   praise (DownloadError (''Could not locate parent folder for course: '' @ cid))
               | _ \<Rightarrow> praise e)"
    by (simp split: exn.splits)
  show ?thesis
    unfolding download_def Let_def
    by (intro kept_intros w h kept_praise kept_pret
        stays_dir_preserves [OF preserves_drive(3)]
        stays_dir_preserves [OF preserves_find_parent]
        stays_dir_preserves [OF preserves_requests_post(3)])
qed

lemma stays_dir_attempt:
  assumes "download_dir self = q @ [''zips'']" "extract_dir self = q @ [''extracted'']"
  shows "stays_dir q (attempt env self c)"
  unfolding attempt_def assms
  by (intro kept_intros stays_dir_download stays_dir_on_fs keeps_dir_Extractor_extract)

lemma stays_dir_sync_course:
  assumes "download_dir self = q @ [''zips'']" "extract_dir self = q @ [''extracted'']"
  shows "stays_dir q (sync_course env self c)"
  unfolding sync_course_def
  by (intro kept_intros stays_dir_attempt [OF assms] stays_dir_preserves preserves_print
      preserves_handler kept_pret)

lemma stays_dir_sync_session:
  assumes "download_dir self = q @ [''zips'']" "extract_dir self = q @ [''extracted'']"
  shows "stays_dir q (sync_session env cfg self)"
  unfolding sync_session_def sync_loop_def Downloader_exit_def
  by (intro kept_intros stays_dir_sync_course [OF assms] stays_dir_preserves
      preserves_Downloader_init preserves_drive)

text \<open>
  Two paths: the second is the first or lies below it, or the first lies below the
  second, or they part at some component.
\<close>

lemma path_cases:
  "(\<exists>r. q = d @ r) \<or> (\<exists>x p. d = q @ x # p)
   \<or> (\<exists>c x y p r. d = c @ x # p \<and> q = c @ y # r \<and> x \<noteq> y)"
proof (induction d arbitrary: q)
  case Nil
  then show ?case by simp
next
  case (Cons a d)
  show ?case
  proof (cases q)
    case Nil
    then show ?thesis by simp
  next
    case (Cons b q')
    show ?thesis
    proof (cases "a = b")
      case False
      with Cons have "a # d = [] @ a # d \<and> q = [] @ b # q' \<and> a \<noteq> b" by simp
      then show ?thesis by blast
    next
      case True
      from Cons.IH [of q'] consider r where "q' = d @ r" | x p where "d = q' @ x # p"
        | c x y p r where "d = c @ x # p" "q' = c @ y # r" "x \<noteq> y" by blast
      then show ?thesis
      proof cases
        case 1
        with True Cons show ?thesis by simp
      next
        case 2
        with True Cons show ?thesis by simp
      next
        case 3
        with True Cons have "a # d = (a # c) @ x # p \<and> q = (a # c) @ y # r \<and> x \<noteq> y" by simp
        then show ?thesis by blast
      qed
    qed
  qed
qed

text \<open>rsync writes in its destination: a directory that is not in it stays a directory.\<close>

lemma put_keeps_dir:
  assumes "\<forall>r. q \<noteq> d @ r" "isdir fs q"
  shows "isdir (put d n fs) q"
proof (cases "alter (\<lambda>_. Inr (Some n)) d fs")
  case (Inl e)
  with assms show ?thesis by (auto simp: put_def)
next
  case (Inr fs')
  from assms(1) have d: "d \<noteq> []" by auto
  from path_cases [of q d] assms(1)
  consider x p where "d = q @ x # p"
    | c x y p r where "d = c @ x # p" "q = c @ y # r" "x \<noteq> y" by blast
  then have "isdir fs' q"
  proof cases
    case 1
    with Inr show ?thesis by (auto intro: alter_keeps_prefix)
  next
    case 2
    from alter_frame [of "\<lambda>_. Inr (Some n)" c x p fs fs' y r] Inr 2 assms(2)
    show ?thesis by (simp add: isdir_def)
  qed
  with Inr d show ?thesis by (simp add: put_def)
qed

lemma rsync_keeps_dir:
  assumes "\<forall>r. q \<noteq> dst @ r" "isdir fs q"
  shows "isdir (rsync suffix src dst fs) q"
  using assms put_keeps_dir [OF assms(1)] mkdir_mono [of dst fs _ q]
  by (auto simp: rsync_def split: option.splits node.splits sum.splits)

lemma stays_dir_RsyncWrapper_sync:
  assumes "\<forall>r. q \<noteq> abspath env destination @ r"
  shows "stays_dir q (RsyncWrapper_sync env suffix source destination)"
  using rsync_keeps_dir [OF assms]
  by (simp add: kept_def RsyncWrapper_sync_def subprocess_call_def process_def)

lemma RsyncWrapper_sync_raises:
  "RsyncWrapper_sync env suffix source destination w = (Inl e, w') \<Longrightarrow> w' = w"
  by (auto simp: RsyncWrapper_sync_def subprocess_call_def split: if_splits)

lemma preserves_filesystem_RsyncWrapper_init: "preserves filesystem (RsyncWrapper_init env)"
  by (simp add: preserves_def RsyncWrapper_init_def datetime_now_def pbind_def pret_def Let_def)

lemma stays_dir_StudipSync_sync:
  assumes "download_dir self = q @ [''zips'']" "extract_dir self = q @ [''extracted'']"
    and "\<forall>r. q \<noteq> abspath env (destination_dir self) @ r"
  shows "stays_dir q (StudipSync_sync env cfg self)"
  unfolding StudipSync_sync_def
  by (intro kept_intros stays_dir_sync_session [OF assms(1,2)] stays_dir_preserves preserves_print
      preserves_filesystem_RsyncWrapper_init stays_dir_RsyncWrapper_sync [OF assms(3)])

text \<open>A \<^verbatim>\<open>sync\<close> that raises has not come to the merge.\<close>

lemma sync_raises_keeps_dir:
  assumes "download_dir self = q @ [''zips'']" "extract_dir self = q @ [''extracted'']"
    and "isdir (filesystem w) q"
    and "StudipSync_sync env cfg self w = (Inl e, w')"
  shows "isdir (filesystem w') q"
proof -
  obtain sfx w1 where i: "RsyncWrapper_init env w = (Inr sfx, w1)"
    by (simp add: RsyncWrapper_init_def datetime_now_def pbind_def pret_def Let_def)
  obtain w2 where p1: "print ''Logging in...'' w1 = (Inr (), w2)" by (simp add: print_def)
  obtain r3 w3 where m: "sync_session env cfg self w2 = (r3, w3)"
    by (cases "sync_session env cfg self w2")
  obtain w4 where p2: "print ''Synchronizing with existing files...'' w3 = (Inr (), w4)"
    by (simp add: print_def)
  from preservesD [OF preserves_filesystem_RsyncWrapper_init i] preservesD [OF preserves_print(3) p1]
    assms(3)
  have "isdir (filesystem w2) q" by simp
  from keptD [OF stays_dir_sync_session [OF assms(1,2)] this, of env cfg] m
  have d3: "isdir (filesystem w3) q" by simp
  with preservesD [OF preserves_print(3) p2] have d4: "isdir (filesystem w4) q" by simp
  show ?thesis
  proof (cases r3)
    case (Inl e3)
    with i p1 m assms(4) have "w' = w3"
      by (simp add: StudipSync_sync_def pbind_def pthen_def)
    with d3 show ?thesis by simp
  next
    case (Inr u)
    with i p1 m p2 assms(4)
    have "RsyncWrapper_sync env sfx (path_str (extract_dir self) @ ''/'') (destination_dir self) w4
            = (Inl e, w')"
      by (simp add: StudipSync_sync_def pbind_def pthen_def)
    from RsyncWrapper_sync_raises [OF this] d4 show ?thesis by simp
  qed
qed

lemma mkdtemp_try_result:
  "mkdtemp_try dir prefix rs fs = Inr (p, fs') \<Longrightarrow> p \<noteq> [] \<and> isdir fs' p"
proof (induction rs)
  case Nil
  then show ?case by simp
next
  case (Cons r rs)
  show ?case
  proof (cases "mkdir (dir @ [prefix @ r]) fs")
    case (Inl e)
    with Cons show ?thesis by (cases e) simp_all
  next
    case (Inr fs1)
    with Cons.prems mkdir_result [OF Inr] show ?thesis by auto
  qed
qed

lemma keeps_dir_makedirs_str: "keeps_dir q (os_call (makedirs_str env eo s))"
  by (rule keeps_dir_os_call)
     (auto simp: makedirs_str_def makedirs_def split: if_splits dest: makedirs_from_mono)

lemma StudipSync_init_result:
  assumes "StudipSync_init env cfg w = (Inr self, w1)"
  shows "workdir self \<noteq> []" "isdir (filesystem w1) (workdir self)"
    "download_dir self = workdir self @ [''zips'']"
    "extract_dir self = workdir self @ [''extracted'']"
    "destination_dir self = target cfg"
proof -
  from assms obtain wd w0 where m: "on_fs (mkdtemp env ''studip-sync'') w = (Inr wd, w0)"
    and rest: "pthen (on_fs (os_call (makedirs False (wd @ [''zips'']))))
         (pthen (on_fs (os_call (makedirs False (wd @ [''extracted'']))))
         (pthen (on_fs (os_call (makedirs_str env True (target cfg))))
                (pret \<lparr>workdir = wd, download_dir = wd @ [''zips''],
                   extract_dir = wd @ [''extracted''], destination_dir = target cfg\<rparr>))) w0
         = (Inr self, w1)"
    unfolding StudipSync_init_def Let_def by (auto simp: pbind_Inr)
  from m have wd: "wd \<noteq> []" "isdir (filesystem w0) wd"
    by (auto simp: on_fs_def mkdtemp_def split: prod.splits sum.splits dest: mkdtemp_try_result)
  from rest have self: "self = \<lparr>workdir = wd, download_dir = wd @ [''zips''],
                   extract_dir = wd @ [''extracted''], destination_dir = target cfg\<rparr>"
    by (auto simp: pthen_Inr pret_def)
  have "stays_dir wd (pthen (on_fs (os_call (makedirs False (wd @ [''zips'']))))
         (pthen (on_fs (os_call (makedirs False (wd @ [''extracted'']))))
         (pthen (on_fs (os_call (makedirs_str env True (target cfg))))
                (pret \<lparr>workdir = wd, download_dir = wd @ [''zips''],
                   extract_dir = wd @ [''extracted''], destination_dir = target cfg\<rparr>))))"
    by (intro kept_intros stays_dir_on_fs keeps_dir_makedirs keeps_dir_makedirs_str kept_pret)
  from keptD [OF this wd(2)] rest have "isdir (filesystem w1) wd" by simp
  with wd self show "workdir self \<noteq> []" "isdir (filesystem w1) (workdir self)"
    "download_dir self = workdir self @ [''zips'']"
    "extract_dir self = workdir self @ [''extracted'']"
    "destination_dir self = target cfg"
    by simp_all
qed

lemma cleanup_of_directory:
  assumes "workdir self \<noteq> []" "isdir (filesystem w) (workdir self)"
  shows "fst (cleanup self w) = Inr ()"
    "lookup (filesystem (snd (cleanup self w))) (workdir self) = None"
proof -
  from assms rmtree_fails [of "workdir self" "filesystem w"]
  obtain fs' where r: "rmtree (workdir self) (filesystem w) = Inr fs'"
    by (cases "rmtree (workdir self) (filesystem w)") auto
  from r rmtree_removes [OF r] show "fst (cleanup self w) = Inr ()"
    "lookup (filesystem (snd (cleanup self w))) (workdir self) = None"
    by (simp_all add: cleanup_def on_fs_def os_call_def)
qed

lemma cleanup_leaves_no_directory:
  assumes "workdir self \<noteq> []"
  shows "\<not> isdir (filesystem (snd (cleanup self w))) (workdir self)"
proof (cases "rmtree (workdir self) (filesystem w)")
  case (Inl e)
  from rmtree_fails [OF Inl assms] Inl show ?thesis
    by (simp add: cleanup_def on_fs_def os_call_def)
next
  case (Inr fs')
  from rmtree_removes [OF Inr] Inr show ?thesis
    by (simp add: cleanup_def on_fs_def os_call_def isdir_def)
qed

lemma run_after_init:
  assumes "StudipSync_init env cfg w = (Inr self, w1)"
  shows "snd (run env cfg w) = snd (cleanup self (snd (StudipSync_sync env cfg self w1)))"
    and "fst (cleanup self (snd (StudipSync_sync env cfg self w1))) = Inr () \<Longrightarrow>
           fst (run env cfg w) = fst (StudipSync_sync env cfg self w1)"
proof -
  have run: "run env cfg w = pwith (StudipSync_sync env cfg self) (StudipSync_exit self) w1"
    using assms by (simp add: run_def pbind_def)
  show "snd (run env cfg w) = snd (cleanup self (snd (StudipSync_sync env cfg self w1)))"
    by (simp add: run pwith_def StudipSync_exit_def split: prod.splits sum.splits)
  show "fst (cleanup self (snd (StudipSync_sync env cfg self w1))) = Inr () \<Longrightarrow>
           fst (run env cfg w) = fst (StudipSync_sync env cfg self w1)"
    by (cases "StudipSync_sync env cfg self w1";
        cases "cleanup self (snd (StudipSync_sync env cfg self w1))")
       (auto simp: run pwith_def StudipSync_exit_def)
qed



lemma example_init:
  "StudipSync_init example_env (example_config\<lparr>password := ''wrong''\<rparr>) world_before
     = (Inr example_self, world_ready)"
  "StudipSync_init example_env example_config world_before = (Inr example_self, world_ready)"
  by (simp_all add: run_eval)

lemma example_run_login_fails:
  "fst (StudipSync_sync example_env (example_config\<lparr>password := ''wrong''\<rparr>) example_self
          world_ready) = Inl (SystemExit 1)"
  by (simp add: run_eval)

lemma example_run_returns:
  "fst (StudipSync_sync example_env example_config example_self world_ready) = Inr ()"
  by (simp add: run_eval example_timestamp)

lemma example_workspace_apart:
  "\<forall>r. workdir example_self \<noteq> abspath example_env (target example_config) @ r"
  "\<forall>r. workdir example_self \<noteq> abspath example_env (target (example_config\<lparr>password := ''wrong''\<rparr>)) @ r"
  by (simp_all add: example_self_def example_config_def example_env_def abspath_def)

text \<open>
  The proviso on the destination is needed. When the temporary directory lies in the
  target and bears the name rsync gives a backup, the merge replaces it by that backup:
  \<^verbatim>\<open>sync\<close> returns, nothing is left at the path of the workspace, and the cleanup
  raises.
\<close>

lemma merge_into_an_ancestor_of_the_workspace:
  "StudipSync_init nested_env nested_config nested_world = (Inr nested_self, snd (StudipSync_init nested_env nested_config nested_world))
   \<and> fst (StudipSync_sync nested_env nested_config nested_self
            (snd (StudipSync_init nested_env nested_config nested_world))) = Inr ()
   \<and> fst (run nested_env nested_config nested_world) = Inl (OSError NotADirectoryError)
   \<and> filesystem (snd (run nested_env nested_config nested_world))
     = Dir [(''data'', Dir [(''Logic'', Dir [(''a'', File (Raw ''x'')), (''b'', File (Raw ''y''))]),
                            (''Logic_2024-03-09_07+05+00.old'', File (Raw ''notes''))])]"
  by (simp add: run_eval example_timestamp prod_eq_iff)


section \<open>The staging tree of a failed course\<close>

lemma extract_not_an_archive:
  "lookup fs a = Some (File (Raw s)) \<Longrightarrow>
     Extractor_extract b a n cl fs = (Inl (ExtractionError (''Cannot extract file: '' @ path_str a)), fs)"
  by (simp add: Extractor_extract_def extract_body_def ZipFile_lookup prog_defs)

lemma write_file_frame:
  "write_file (q @ x # p) c fs = Inr fs' \<Longrightarrow> x \<noteq> y \<Longrightarrow> lookup fs' (q @ y # r) = lookup fs (q @ y # r)"
  unfolding write_file_def by (rule alter_frame)

lemma fetched_None:
  "fetched env c = None \<Longrightarrow>
     (\<exists>m w'. download env dd (course_id c) (sync_only c) w = (Inl (DownloadError m), w')
             \<and> filesystem w' = filesystem w)"
  by (auto simp: fetched_def download_unfolded Let_def split: option.splits if_splits)

text \<open>
  C6, as stated: false for the course whose archive has an intact member \<open>a\<close> and then
  a damaged one. The extraction fails and is reported as failed, and the member extracted
  before the damaged one stays in the staging subtree of the course: the code removes
  nothing when an extraction fails.
\<close>

theorem failed_extraction_leaves_members_counterexample:
  "course_outcome example_env topology = ExtractionFailed
   \<and> sync_course example_env example_self topology world_ready
       = (Inr (), snd (sync_course example_env example_self topology world_ready))
   \<and> printed (snd (sync_course example_env example_self topology world_ready))
       = [''Downloading '' @ quoted ''Topology'' @ ''...'',
          ''ERROR: Extraction failed for '' @ quoted ''Topology'']
   \<and> lookup (filesystem (snd (sync_course example_env example_self topology world_ready)))
        (extract_dir example_self @ [save_as topology])
       = Some (Dir [(''a'', File (Raw ''x''))])"
  by (simp add: run_eval course_outcome_def fetched_def bulk_request_def prod_eq_iff)

text \<open>
  C6, amended. A course whose download fails (no root folder, or a response that is no
  success), or whose download yields bytes that are no archive, leaves the staging tree
  as it was: every path under the staging directory resolves after the step of the course
  as it did before, so nothing is created under \<open>staging/save_as\<close>. The orchestrator
  is taken to have its download and staging directories where \<^verbatim>\<open>__init__\<close> puts them.
\<close>

theorem rejected_course_leaves_staging_untouched:
  assumes "fetched env c = None \<or> (\<exists>s. fetched env c = Some (Raw s))"
    and "download_dir self = workdir self @ [''zips'']"
    and "extract_dir self = workdir self @ [''extracted'']"
  shows "lookup (filesystem (snd (sync_course env self c w))) (extract_dir self @ p)
           = lookup (filesystem w) (extract_dir self @ p)"
proof -
  let ?w0 = "w\<lparr>printed := printed w @ [''Downloading '' @ quoted (save_as c) @ ''...'']\<rparr>"
  let ?dl = "download env (download_dir self) (course_id c) (sync_only c) ?w0"
  from assms(1) show ?thesis
  proof
    assume "fetched env c = None"
    from fetched_None [OF this, of "download_dir self" ?w0]
    obtain m w' where d: "?dl = (Inl (DownloadError m), w')" and f: "filesystem w' = filesystem w"
      by auto
    have "filesystem (snd (sync_course env self c w)) = filesystem w'"
      using d by (simp add: sync_course_def attempt_def handler_def prog_defs)
    with f show ?thesis by simp
  next
    assume "\<exists>s. fetched env c = Some (Raw s)"
    then obtain s fid where fid: "parent_folder_id env (course_id c) = Some fid"
      and ok: "ok (post_response env (bulk_request env (course_id c) (sync_only c) fid))"
      and raw: "raw (post_response env (bulk_request env (course_id c) (sync_only c) fid)) = Raw s"
      by (auto simp: fetched_def Let_def split: option.splits if_splits)
    show ?thesis
    proof (cases "write_file (download_dir self @ [course_id c]) (Raw s) (filesystem w)")
      case (Inl e)
      then have "filesystem (snd (sync_course env self c w)) = filesystem w"
        using fid ok raw
        by (simp add: sync_course_def attempt_def handler_def download_unfolded Let_def prog_defs)
      then show ?thesis by simp
    next
      case (Inr fs1)
      from write_file_result [OF Inr]
      have arch: "lookup fs1 (download_dir self @ [course_id c]) = Some (File (Raw s))" .
      have "filesystem (snd (sync_course env self c w)) = fs1"
        using fid ok raw Inr extract_not_an_archive [OF arch]
        by (simp add: sync_course_def attempt_def handler_def download_unfolded Let_def prog_defs)
      moreover have "lookup fs1 (workdir self @ ''extracted'' # p)
                       = lookup (filesystem w) (workdir self @ ''extracted'' # p)"
        using Inr write_file_frame [of "workdir self" "''zips''" "[course_id c]" "Raw s"
            "filesystem w" fs1 "''extracted''" p]
        by (simp add: assms(2))
      ultimately show ?thesis by (simp add: assms(3))
    qed
  qed
qed

lemma example_fetched:
  "fetched example_env algebra = None"
  "fetched example_env statistics = Some (Raw ''junk'')"
  by (simp_all add: fetched_def bulk_request_def example_defs Let_def)

theorem rejected_course_leaves_staging_untouched_witness:
  "fetched example_env algebra = None
   \<and> lookup (filesystem (snd (sync_course example_env example_self algebra world_ready)))
         [''tmp'', ''studip-syncaaa'', ''extracted'', ''Algebra''] = None
   \<and> fetched example_env statistics = Some (Raw ''junk'')
   \<and> lookup (filesystem (snd (sync_course example_env example_self statistics world_ready)))
         [''tmp'', ''studip-syncaaa'', ''extracted''] = Some (Dir [])"
proof -
  have s: "download_dir example_self = workdir example_self @ [''zips'']"
    "extract_dir example_self = workdir example_self @ [''extracted'']"
    by (simp_all add: example_self_def)
  have a: "fetched example_env algebra = None \<or> (\<exists>s. fetched example_env algebra = Some (Raw s))"
    "fetched example_env statistics = None \<or> (\<exists>s. fetched example_env statistics = Some (Raw s))"
    by (simp_all add: example_fetched)
  from rejected_course_leaves_staging_untouched [OF a(1) s, where p = "[''Algebra'']" and w = world_ready]
    rejected_course_leaves_staging_untouched [OF a(2) s, where p = "[]" and w = world_ready]
  show ?thesis
    by (simp add: example_fetched example_self_def world_ready_def)
qed

section \<open>The outcome of each course\<close>

lemma os_call_os_only [simp]: "os_only (fst (os_call f fs))"
  by (simp add: os_call_def split: sum.splits)

lemma os_read_os_only [simp]: "os_only (fst (os_read f fs))"
  by (simp add: os_read_def split: sum.splits)

lemma raises_os_only_os_call [simp]: "raises_os_only (os_call f)"
  by (simp add: raises_os_only_def)

lemma raises_os_only_os_read [simp]: "raises_os_only (os_read f)"
  by (simp add: raises_os_only_def)

lemma raises_os_only_pret [simp]: "raises_os_only (pret a)"
  by (simp add: raises_os_only_def pret_def)

lemma os_only_Inl: "os_only (Inl e) \<longleftrightarrow> (\<exists>oe. e = OSError oe)"
  by (cases e) simp_all

lemma raises_os_only_pbind:
  assumes "raises_os_only m" "\<And>a. raises_os_only (k a)"
  shows "raises_os_only (pbind m k)"
  unfolding raises_os_only_def
proof
  fix s
  show "os_only (fst (pbind m k s))"
  proof (cases "m s")
    case (Pair r s')
    show ?thesis
    proof (cases r)
      case (Inl e)
      from assms(1) have "os_only (fst (m s))" by (simp add: raises_os_only_def)
      with Pair Inl show ?thesis by (simp add: pbind_def os_only_Inl)
    next
      case (Inr a)
      from assms(2) [of a] have "os_only (fst (k a s'))" by (simp add: raises_os_only_def)
      with Pair Inr show ?thesis by (simp add: pbind_def)
    qed
  qed
qed

lemma raises_os_only_pthen:
  "raises_os_only m \<Longrightarrow> raises_os_only k \<Longrightarrow> raises_os_only (pthen m k)"
  by (simp add: pthen_def raises_os_only_pbind)

lemma raises_os_only_pforeach:
  "(\<And>x. raises_os_only (body x)) \<Longrightarrow> raises_os_only (pforeach xs body)"
  by (induction xs) (simp_all add: raises_os_only_pbind)

lemma raises_os_only_if:
  "raises_os_only a \<Longrightarrow> raises_os_only b \<Longrightarrow> raises_os_only (if c then a else b)"
  by simp

lemmas raises_os_only_intros =
  raises_os_only_pbind raises_os_only_pthen raises_os_only_pforeach raises_os_only_if

lemma raises_os_only_remove_intermediary_dir: "raises_os_only (remove_intermediary_dir d)"
  unfolding remove_intermediary_dir_def
  by (intro raises_os_only_intros; simp add: raises_os_only_def pret_def)

lemma raises_os_only_walk:
  "raises_os_only (walk root n)" "raises_os_only (walk_dirs root es)"
  by (induction root n and root es rule: walk_walk_dirs.induct)
     (simp_all add: raises_os_only_pthen)

lemma raises_os_only_remove_empty_dirs: "raises_os_only (remove_empty_dirs d)"
  using raises_os_only_walk(1)
  by (auto simp: raises_os_only_def remove_empty_dirs_def pret_def split: option.splits)

lemma os_only_cases: "os_only r \<longleftrightarrow> (\<exists>a. r = Inr a) \<or> (\<exists>e. r = Inl (OSError e))"
  by (cases r rule: os_only.cases) auto

lemma extract_member_result:
  "fst (extract_member d m fs) = Inr u \<Longrightarrow> \<not> bad_member (snd m)"
  "fst (extract_member d m fs) = Inl e \<Longrightarrow>
     (\<exists>oe. e = OSError oe) \<or> (e = BadZipFile \<and> bad_member (snd m)) \<or> (\<exists>cls. e = OtherException cls)"
  by (auto simp: extract_member_def prog_defs Let_def
           split: member_data.splits sum.splits if_splits prod.splits)

lemma extractall_result:
  "fst (extractall ms d fs) = Inr u \<Longrightarrow> \<not> damaged ms"
  "fst (extractall ms d fs) = Inl e \<Longrightarrow>
     (\<exists>oe. e = OSError oe) \<or> (e = BadZipFile \<and> damaged ms) \<or> (\<exists>cls. e = OtherException cls)"
proof (induction ms arbitrary: fs)
  case Nil
  { case 1 then show ?case by simp
  next
    case 2 then show ?case by (simp add: extractall_def pret_def) }
next
  case (Cons m ms)
  { case 1
    then show ?case
      using Cons.IH(1) extract_member_result(1) [of d m fs]
      by (auto simp: extractall_def pbind_def split: prod.splits sum.splits)
  next
    case 2
    then show ?case
      using Cons.IH(2) extract_member_result(2) [of d m fs e]
      by (auto simp: extractall_def pbind_def split: prod.splits sum.splits) }
qed

lemma cleanup_steps_result:
  "os_only (fst (pthen (pthen (remove_intermediary_dir d) (remove_empty_dirs d)) (pret d) fs))"
proof -
  have "raises_os_only (pthen (pthen (remove_intermediary_dir d) (remove_empty_dirs d))
          (pret d :: (node, path) prog))"
    by (intro raises_os_only_pthen raises_os_only_remove_intermediary_dir
          raises_os_only_remove_empty_dirs raises_os_only_pret)
  then show ?thesis by (simp add: raises_os_only_def)
qed

lemma extract_outcome:
  assumes "lookup fs a = Some (File c)"
    and "outcome_of_result (fst (Extractor_extract b a n True fs)) = Some out"
  shows "out = (if intact c then Staged else ExtractionFailed)"
proof (cases c)
  case (Raw s)
  with assms show ?thesis by (simp add: extract_not_an_archive)
next
  case (Zip ms)
  let ?d = "b @ [n]"
  obtain r1 fs1 where x: "extractall ms ?d fs = (r1, fs1)" by (cases "extractall ms ?d fs")
  show ?thesis
  proof (cases r1)
    case (Inl e)
    from extractall_result(2) [of ms ?d fs e] x Inl
    have "(\<exists>oe. e = OSError oe) \<or> (e = BadZipFile \<and> damaged ms) \<or> (\<exists>cls. e = OtherException cls)"
      by simp
    moreover have "fst (Extractor_extract b a n True fs)
                     = fst (pcatch (praise e) (\<lambda>e. case e of
          BadZipFile \<Rightarrow> praise (ExtractionError (''Cannot extract file: '' @ path_str a))
        | _ \<Rightarrow> praise e) fs1)"
      using assms(1) Zip x Inl
      by (simp add: Extractor_extract_def extract_body_def ZipFile_lookup prog_defs Let_def)
    ultimately show ?thesis using assms(2) Zip
      by (auto simp: pcatch_def praise_def)
  next
    case (Inr u)
    from extractall_result(1) [of ms ?d fs u] x Inr have nd: "\<not> damaged ms" by simp
    let ?k = "pthen (pthen (remove_intermediary_dir ?d) (remove_empty_dirs ?d)) (pret ?d)"
    have "os_only (fst (?k fs1))" by (rule cleanup_steps_result)
    moreover have "Extractor_extract b a n True fs
        = pcatch ?k (\<lambda>e. case e of
          BadZipFile \<Rightarrow> praise (ExtractionError (''Cannot extract file: '' @ path_str a))
        | _ \<Rightarrow> praise e) fs1"
      using assms(1) Zip x Inr
      by (simp add: Extractor_extract_def extract_body_def ZipFile_lookup pbind_def pthen_def pcatch_def Let_def)
    ultimately show ?thesis using assms(2) Zip nd
      by (cases "?k fs1") (auto simp: os_only_cases pcatch_def praise_def)
  qed
qed

lemma attempt_outcome:
  assumes "outcome_of_result (fst (attempt env self c w)) = Some out"
  shows "out = course_outcome env c"
proof (cases "fetched env c")
  case None
  from fetched_None [OF None, of "download_dir self" w]
  obtain m w' where "download env (download_dir self) (course_id c) (sync_only c) w
                       = (Inl (DownloadError m), w')" by blast
  with assms None show ?thesis
    by (simp add: attempt_def pbind_def course_outcome_def)
next
  case (Some body)
  then obtain fid where fid: "parent_folder_id env (course_id c) = Some fid"
    and ok: "ok (post_response env (bulk_request env (course_id c) (sync_only c) fid))"
    and raw: "raw (post_response env (bulk_request env (course_id c) (sync_only c) fid)) = body"
    by (auto simp: fetched_def Let_def split: option.splits if_splits)
  let ?p = "download_dir self @ [course_id c]"
  show ?thesis
  proof (cases "write_file ?p body (filesystem w)")
    case (Inl e)
    with assms fid ok raw show ?thesis
      by (simp add: attempt_def download_unfolded Let_def pbind_def)
  next
    case (Inr fs1)
    from write_file_result [OF Inr] have arch: "lookup fs1 ?p = Some (File body)" .
    have "fst (attempt env self c w) = fst (Extractor_extract (extract_dir self) ?p (save_as c) True fs1)"
      using fid ok raw Inr
      by (simp add: attempt_def download_unfolded Let_def pbind_def on_fs_def split: prod.splits)
    with assms extract_outcome [OF arch] Some show ?thesis
      by (simp add: course_outcome_def)
  qed
qed

lemma preserves_attempt_printed: "preserves printed (attempt env self c)"
  unfolding attempt_def by (intro preserves_intros; simp)

lemma sync_course_report:
  assumes "sync_course env self c w = (Inr (), w')"
  shows "printed w' = printed w @ report c (course_outcome env c)"
proof -
  let ?line = "''Downloading '' @ quoted (save_as c) @ ''...''"
  let ?w0 = "w\<lparr>printed := printed w @ [?line]\<rparr>"
  obtain r w1 where a: "attempt env self c ?w0 = (r, w1)" by (cases "attempt env self c ?w0")
  from preservesD [OF preserves_attempt_printed a] have p1: "printed w1 = printed w @ [?line]"
    by simp
  have sc: "sync_course env self c w = (case r of Inl e \<Rightarrow> handler c e w1 | Inr _ \<Rightarrow> (Inr (), w1))"
    using a by (cases r) (simp_all add: sync_course_def prog_defs)
  show ?thesis
  proof (cases "outcome_of_result r")
    case None
    then have "fst (sync_course env self c w) = Inl (case r of Inl e \<Rightarrow> e)"
      unfolding sc by (cases r rule: outcome_of_result.cases) (simp_all add: handler_def prog_defs)
    with assms show ?thesis by simp
  next
    case (Some out)
    with attempt_outcome [of env self c ?w0 out] a have out: "out = course_outcome env c" by simp
    from Some have "printed (snd (sync_course env self c w)) = printed w1 @ tl (report c out)"
      unfolding sc
      by (cases r rule: outcome_of_result.cases) (auto simp: handler_def prog_defs report_def)
    with assms p1 out show ?thesis by (simp add: report_def)
  qed
qed

lemma course_outcomes_when_loop_completes:
  assumes "sync_loop env self cs w = (Inr (), w')"
  shows "printed w' = printed w @ concat (map (\<lambda>c. report c (course_outcome env c)) cs)"
  using assms
proof (induction cs arbitrary: w)
  case Nil
  then show ?case by (simp add: sync_loop_def pret_def)
next
  case (Cons c cs)
  from Cons.prems obtain w1 where c: "sync_course env self c w = (Inr (), w1)"
    and rest: "sync_loop env self cs w1 = (Inr (), w')"
    by (auto simp: sync_loop_def pbind_Inr)
  from sync_course_report [OF c] Cons.IH [OF rest] show ?case by simp
qed

lemma caught_exception_continues:
  assumes "fst (attempt env self c (snd (print (''Downloading '' @ quoted (save_as c) @ ''...'') w))) = Inl e"
    and "caught_by_loop e"
  shows "fst (sync_course env self c w) = Inr ()"
  using assms
  by (cases e)
     (auto simp: sync_course_def handler_def prog_defs split: prod.splits sum.splits)

text \<open>
  C3, as stated: false for the courses \<open>physics\<close> and \<open>logic\<close>. The archive of
  \<open>physics\<close> is a good archive that holds one file; its download succeeds, and its
  extraction raises \<^verbatim>\<open>NotADirectoryError\<close>, which is neither of the two exceptions the
  loop catches. The loop ends there: \<open>physics\<close> has none of the three outcomes, and
  \<open>logic\<close>, which is staged when it is the only course, is never attempted.
\<close>

theorem uncaught_exception_ends_the_loop_counterexample:
  "fst (sync_loop example_env example_self [physics, logic] world_ready)
     = Inl (OSError NotADirectoryError)
   \<and> printed (snd (sync_loop example_env example_self [physics, logic] world_ready))
     = [''Downloading '' @ quoted ''Physics'' @ ''...'']
   \<and> lookup (filesystem (snd (sync_loop example_env example_self [physics, logic] world_ready)))
       (extract_dir example_self @ [''Logic''])
     = None
   \<and> fst (sync_loop example_env example_self [logic] world_ready) = Inr ()"
  by (simp add: run_eval)

text \<open>
  C3, amended. A \<open>DownloadError\<close> or \<open>ExtractionError\<close> raised for a course is caught
  and the step of the course returns. Whenever the loop over the courses completes (no
  other exception was raised), the lines printed are, course by course and in the order
  of the courses, the report of exactly one of the three outcomes, with the name of the
  course, and that outcome is read off the answers of the portal for this course alone:
  no other course has a part in it.
\<close>

theorem caught_failures_are_reported_per_course:
  "(fst (attempt env self c (snd (print (''Downloading '' @ quoted (save_as c) @ ''...'') w))) = Inl e
      \<and> caught_by_loop e \<longrightarrow>
    fst (sync_course env self c w) = Inr ())
   \<and> (sync_loop env self cs w = (Inr (), w') \<longrightarrow>
    printed w' = printed w @ concat (map (\<lambda>c. report c (course_outcome env c)) cs))"
  using caught_exception_continues [of env self c w e]
    course_outcomes_when_loop_completes [of env self cs w w']
  by blast

lemma example_loop_completes:
  "fst (sync_loop example_env example_self [algebra, topology, logic] world_ready) = Inr ()"
  by (simp add: run_eval)

lemma example_outcomes:
  "course_outcome example_env algebra = DownloadFailed"
  "course_outcome example_env topology = ExtractionFailed"
  "course_outcome example_env logic = Staged"
  by (simp_all add: course_outcome_def fetched_def bulk_request_def example_defs Let_def)

lemma example_attempt_refused:
  "fst (attempt example_env example_self algebra
          (snd (print (''Downloading '' @ quoted (save_as algebra) @ ''...'') world_ready)))
     = Inl (DownloadError (''Download failed '' @ bulk_url @ ''f1''))"
  by (simp add: run_eval)

theorem caught_failures_are_reported_per_course_witness:
  "caught_by_loop (DownloadError (''Download failed '' @ bulk_url @ ''f1''))
   \<and> fst (sync_course example_env example_self algebra world_ready) = Inr ()
   \<and> fst (sync_loop example_env example_self [algebra, topology, logic] world_ready) = Inr ()
   \<and> printed (snd (sync_loop example_env example_self [algebra, topology, logic] world_ready))
     = report algebra DownloadFailed @ report topology ExtractionFailed @ report logic Staged"
proof -
  have l: "sync_loop example_env example_self [algebra, topology, logic] world_ready
          = (Inr (), snd (sync_loop example_env example_self [algebra, topology, logic] world_ready))"
    using example_loop_completes by (simp add: prod_eq_iff)
  from caught_failures_are_reported_per_course [where env = example_env and self = example_self
      and c = algebra and w = world_ready
      and e = "DownloadError (''Download failed '' @ bulk_url @ ''f1'')"
      and cs = "[algebra, topology, logic]"
      and w' = "snd (sync_loop example_env example_self [algebra, topology, logic] world_ready)"]
    l example_attempt_refused example_loop_completes
  show ?thesis
    by (simp add: example_outcomes world_ready_def)
qed

end
